theory Spec2Isabelle
  imports Complex_Main "HOL-Library.AList"
begin

section \<open>Common vocabulary\<close>

text \<open>
  Python exceptions that the modelled functions can raise themselves. A function that can
  raise returns \<open>py_error + 'a\<close>, with \<open>Inl\<close> carrying the exception.
\<close>

datatype py_error = IndexError | KeyError | ZeroDivisionError | AssertionError | TypeError
  | IOError | AttributeError | OverflowError

text \<open>
  Python's \<open>'%d' % n\<close>: the decimal numeral of an integer, with a leading minus sign for
  a negative one.
\<close>

definition digit_char :: "nat \<Rightarrow> char" where
  "digit_char d = ''0123456789'' ! d"

fun string_of_nat :: "nat \<Rightarrow> string" where
  "string_of_nat n =
     (if n < 10 then [digit_char n] else string_of_nat (n div 10) @ [digit_char (n mod 10)])"

definition string_of_int :: "int \<Rightarrow> string" where
  "string_of_int i = (if i < 0 then CHR ''-'' # string_of_nat (nat (- i)) else string_of_nat (nat i))"

text \<open>Python's \<open>'%5d' % n\<close>: the numeral, padded with blanks on the left to five characters.\<close>

definition pad5 :: "string \<Rightarrow> string" where
  "pad5 t = replicate (5 - length t) CHR '' '' @ t"

text \<open>Python's \<open>x.startswith('s')\<close>.\<close>

definition startswith_s :: "string \<Rightarrow> bool" where
  "startswith_s x = (case x of [] \<Rightarrow> False | c # _ \<Rightarrow> c = CHR ''s'')"

section \<open>\<open>deepcpg/net.py\<close>: \<open>progress\<close>\<close>

text \<open>
  Python's true division \<open>a / b\<close> of two integers gives a 64-bit float: the float nearest
  to the exact quotient, ties going to the even significand. It raises
  \<open>ZeroDivisionError\<close> for \<open>b = 0\<close> and \<open>OverflowError\<close> when the rounded quotient is
  beyond the largest float. A float is represented by the rational number it denotes.

  \<open>round_half_even num den\<close> is the integer nearest to \<open>num / den\<close> for a positive
  \<open>den\<close>, a tie going to the even one.
\<close>

definition round_half_even :: "int \<Rightarrow> int \<Rightarrow> int" where
  "round_half_even num den =
     (let f = num div den; r = num mod den
      in if 2 * r < den then f else if den < 2 * r then f + 1 else if even f then f else f + 1)"

text \<open>The number of binary digits of a natural number (Python's \<open>int.bit_length\<close>).\<close>

fun bit_length :: "nat \<Rightarrow> nat" where
  "bit_length n = (if n = 0 then 0 else Suc (bit_length (n div 2)))"

declare bit_length.simps [simp del]

text \<open>
  For positive \<open>a\<close> and \<open>b\<close>, \<open>float_exponent a b\<close> is the exponent \<open>e\<close> with
  \<open>2 ^ e \<le> a / b < 2 ^ (e + 1)\<close>.
\<close>

definition float_exponent :: "int \<Rightarrow> int \<Rightarrow> int" where
  "float_exponent a b =
     (let d = int (bit_length (nat a)) - int (bit_length (nat b))
      in if 2 powi d * rat_of_int b \<le> rat_of_int a then d else d - 1)"

text \<open>
  The float nearest to \<open>a / b\<close> for positive \<open>a\<close> and \<open>b\<close>: a multiple of
  \<open>2 ^ (e - 52)\<close> (a significand of 53 bits), where \<open>e\<close> is the exponent of the
  quotient and at least \<open>-1022\<close> (below that the floats are subnormal and equally
  spaced). The exponent is not bounded from above here; \<open>true_div\<close> checks the result.
\<close>

definition round_quotient :: "int \<Rightarrow> int \<Rightarrow> rat" where
  "round_quotient a b =
     (let shift = max (float_exponent a b) (- 1022) - 52;
          m = (if 0 \<le> shift then round_half_even a (b * 2 ^ nat shift)
               else round_half_even (a * 2 ^ nat (- shift)) b)
      in rat_of_int m * 2 powi shift)"

definition true_div :: "int \<Rightarrow> int \<Rightarrow> py_error + rat" where
  "true_div a b =
     (if b = 0 then Inl ZeroDivisionError
      else if a = 0 then Inr 0
      else
        let r = round_quotient \<bar>a\<bar> \<bar>b\<bar>
        in if 2 powi 1024 \<le> r then Inl OverflowError
           else Inr (if (a < 0) \<noteq> (b < 0) then - r else r))"

text \<open>
  \<open>progress(batch_index, nb_batch, s=20)\<close>. The arguments are Python integers. The
  quotient \<open>nb_batch / s\<close> is the float of \<open>true_div\<close>; \<open>np.ceil\<close> gives its ceiling and
  \<open>int\<close> converts it exactly. The test \<open>batch_index % s == 0\<close> uses Python's modulus,
  which for the positive divisor at hand is \<open>mod\<close>. The message is built only when the
  test succeeds; its percentage \<open>batch_index / nb_batch * 100\<close> is again a true division,
  which can raise. The product with 100 and the rendering \<open>'%.1f'\<close> of the float are a
  parameter \<open>pct\<close> of the model, which receives the float quotient.
\<close>

definition progress :: "(rat \<Rightarrow> string) \<Rightarrow> int \<Rightarrow> int \<Rightarrow> int \<Rightarrow> py_error + string option" where
  "progress pct batch_index nb_batch s =
     (case true_div nb_batch s of
        Inl e \<Rightarrow> Inl e
      | Inr q \<Rightarrow>
          (let s' = max 1 \<lceil>q\<rceil>;
               bi = batch_index + 1
           in if bi = 1 \<or> bi = nb_batch \<or> bi mod s' = 0
              then (case true_div bi nb_batch of
                      Inl e \<Rightarrow> Inl e
                    | Inr x \<Rightarrow>
                        Inr (Some (pad5 (string_of_int bi) @ '' / '' @ string_of_int nb_batch
                                   @ '' ('' @ pct x @ ''%)'')))
              else Inr None))"

section \<open>\<open>deepcpg/net.py\<close>: \<open>loss_from_ids\<close>\<close>

text \<open>
  A Python \<open>dict\<close> is an association list with distinct keys in insertion order;
  \<open>d[k] = v\<close> is \<open>AList.update k v d\<close>, which overwrites in place or appends.
  The argument \<open>spec\<close> is \<open>None\<close>, a dict, or any other value (a loss name).
\<close>

type_synonym 'v pydict = "(string \<times> 'v) list"

datatype loss_spec = SpecDict "string pydict" | SpecValue string

fun default_losses :: "string list \<Rightarrow> string pydict \<Rightarrow> string pydict" where
  "default_losses [] loss = loss"
| "default_losses (x # ids) loss =
     default_losses ids
       (if startswith_s x then AList.update x ''mse'' loss
        else AList.update x ''binary_crossentropy'' loss)"

fun override_items :: "string pydict \<Rightarrow> string pydict \<Rightarrow> string pydict" where
  "override_items [] loss = loss"
| "override_items ((k, v) # items) loss = override_items items (AList.update k v loss)"

fun override_all :: "string list \<Rightarrow> string \<Rightarrow> string pydict \<Rightarrow> string pydict" where
  "override_all [] spec loss = loss"
| "override_all (k # ks) spec loss = override_all ks spec (AList.update k spec loss)"

definition loss_from_ids :: "string list \<Rightarrow> loss_spec option \<Rightarrow> string pydict" where
  "loss_from_ids ids spec =
     (let loss = default_losses ids []
      in case spec of
           None \<Rightarrow> loss
         | Some (SpecDict d) \<Rightarrow> override_items d loss
         | Some (SpecValue v) \<Rightarrow> override_all (map fst loss) v loss)"

section \<open>\<open>scripts/train.py\<close>: \<open>App.adjust_batch_size\<close> and its use in \<open>App.main\<close>\<close>

text \<open>
  A data set is the list of its samples along the first axis, so \<open>v.shape[0]\<close> is its
  length and \<open>v[:n]\<close> is \<open>take n v\<close>. \<open>data\<close> and \<open>sample_weights\<close> are dicts of data
  sets. The learning rates are the decimal literals of the source, as rationals.

  \<open>model.train_on_batch\<close> belongs to the neural-network library. It is the parameter
  \<open>train_on_batch\<close>, which tells for a batch and its weights whether the call returns
  (\<open>True\<close>) or raises (\<open>False\<close>); the bare \<open>except:\<close> catches whatever it raises.
  The log is the list of the messages in the order they are written.
\<close>

datatype log_msg = Info string | Error string

definition configs :: "(nat \<times> rat) list" where
  "configs =
     [(512, 125 / 1000000),
      (256, 25 / 100000),
      (128, 5 / 10000),
      (64, 1 / 1000),
      (32, 1 / 1000),
      (16, 1 / 1000)]"

definition slice_batch :: "nat \<Rightarrow> 'a list pydict \<Rightarrow> 'a list pydict" where
  "slice_batch batch_size d = map (\<lambda>(k, v). (k, take batch_size v)) d"

fun try_configs ::
  "('a list pydict \<Rightarrow> 'w list pydict \<Rightarrow> bool) \<Rightarrow> 'a list pydict \<Rightarrow> 'w list pydict \<Rightarrow>
   nat \<Rightarrow> nat list \<Rightarrow> log_msg list \<Rightarrow> log_msg list \<times> nat option" where
  "try_configs train_on_batch data sample_weights nb_sample [] logs = (logs, None)"
| "try_configs train_on_batch data sample_weights nb_sample (i # is) logs =
     (let batch_size = fst (configs ! i)
      in if batch_size > nb_sample
         then try_configs train_on_batch data sample_weights nb_sample is logs
         else
           let logs1 = logs @ [Info (''Try batch size '' @ string_of_nat batch_size)];
               batch_data = slice_batch batch_size data;
               batch_weights = slice_batch batch_size sample_weights
           in if train_on_batch batch_data batch_weights
              then (logs1, Some i)
              else try_configs train_on_batch data sample_weights nb_sample is
                     (logs1 @ [Info (''Batch size '' @ string_of_nat batch_size @ '' failed!'')]))"

definition adjust_batch_size ::
  "('a list pydict \<Rightarrow> 'w list pydict \<Rightarrow> bool) \<Rightarrow> 'a list pydict \<Rightarrow> 'w list pydict \<Rightarrow>
   py_error + (log_msg list \<times> (nat \<times> rat) option)" where
  "adjust_batch_size train_on_batch data sample_weights =
     (case data of
        [] \<Rightarrow> Inl IndexError
      | (k0, v0) # _ \<Rightarrow>
          (let nb_sample = length v0;
               (logs, idx) = try_configs train_on_batch data sample_weights nb_sample
                              [0..<length configs] []
           in (case idx of
                 None \<Rightarrow> Inr (logs, None)
               | Some i \<Rightarrow> Inr (logs, Some (configs ! i)))))"

text \<open>
  The part of \<open>App.main\<close> under the comment \<open>Define batch size\<close>. \<open>opts.batch_size\<close> is
  \<open>None\<close> or an integer (truthy when nonzero), \<open>model_params\<close> is \<open>None\<close> or has a batch
  size. The part either makes \<open>main\<close> return the exit code 1, or lets it go on with a batch
  size and, after the adjustment, a learning rate to set.
\<close>

datatype batch_outcome = Return int | Proceed nat "rat option"

definition define_batch_size ::
  "('a list pydict \<Rightarrow> 'w list pydict \<Rightarrow> bool) \<Rightarrow> nat option \<Rightarrow> bool \<Rightarrow> nat option \<Rightarrow>
   'a list pydict \<Rightarrow> 'w list pydict \<Rightarrow> py_error + (log_msg list \<times> batch_outcome)" where
  "define_batch_size train_on_batch opts_batch_size opts_batch_size_auto model_params_batch_size
     train_data train_weights =
     (if opts_batch_size \<noteq> None \<and> opts_batch_size \<noteq> Some 0
      then Inr ([], Proceed (the opts_batch_size) None)
      else if opts_batch_size_auto \<or> model_params_batch_size = None
      then
        (case adjust_batch_size train_on_batch train_data train_weights of
           Inl e \<Rightarrow> Inl e
         | Inr (logs, None) \<Rightarrow>
             Inr (Info ''Adjust batch size'' # logs @ [Error ''GPU memory to small''], Return 1)
         | Inr (logs, Some (batch_size, lr)) \<Rightarrow>
             Inr (Info ''Adjust batch size'' # logs, Proceed batch_size (Some lr)))
      else Inr ([], Proceed (the model_params_batch_size) None))"

section \<open>\<open>deepcpg/net.py\<close>: loading and saving models\<close>

text \<open>
  The file system is a map from paths to file contents. The functions of the neural-network
  library and of \<open>pickle\<close> are parameters, collected in a record: parsing a JSON
  architecture, loading weights from a file into a model, writing weights to a file, and
  the two serialisations. Each function of the repository returns, next to its result, the
  list of the files it touches and how, in order.
\<close>

type_synonym fs = "string \<rightharpoonup> string"

datatype io_op = OpenRead string | OpenReadBinary string | OpenWrite string
  | OpenWriteBinary string | LoadWeights "string option" | SaveWeights string

record 'm library =
  k_model_from_json :: "string \<Rightarrow> bool \<Rightarrow> py_error + 'm"
  k_load_weights :: "'m \<Rightarrow> string option \<Rightarrow> fs \<Rightarrow> py_error + 'm"
  k_save_weights :: "'m \<Rightarrow> string \<Rightarrow> fs \<Rightarrow> fs"
  k_to_json :: "'m \<Rightarrow> string"
  pickle_load :: "string \<Rightarrow> py_error + 'm"
  pickle_dump :: "'m \<Rightarrow> string"

definition model_from_json ::
  "'m library \<Rightarrow> fs \<Rightarrow> string \<Rightarrow> string option \<Rightarrow> bool \<Rightarrow> io_op list \<times> (py_error + 'm)" where
  "model_from_json lib files json_file weights_file compile =
     (case files json_file of
        None \<Rightarrow> ([OpenRead json_file], Inl IOError)
      | Some model_text \<Rightarrow>
          (case k_model_from_json lib model_text compile of
             Inl e \<Rightarrow> ([OpenRead json_file], Inl e)
           | Inr model \<Rightarrow>
               ([OpenRead json_file, LoadWeights weights_file],
                k_load_weights lib model weights_file files)))"

definition model_from_pickle ::
  "'m library \<Rightarrow> fs \<Rightarrow> string \<Rightarrow> io_op list \<times> (py_error + 'm)" where
  "model_from_pickle lib files pickle_file =
     (case files pickle_file of
        None \<Rightarrow> ([OpenReadBinary pickle_file], Inl IOError)
      | Some blob \<Rightarrow> ([OpenReadBinary pickle_file], pickle_load lib blob))"

text \<open>
  \<open>model_from_list(fnames, compile=...)\<close>: the keyword argument reaches
  \<open>model_from_json\<close> only. \<open>fnames[0]\<close> on an empty list raises \<open>IndexError\<close>.
\<close>

definition model_from_list ::
  "'m library \<Rightarrow> fs \<Rightarrow> string list \<Rightarrow> bool \<Rightarrow> io_op list \<times> (py_error + 'm)" where
  "model_from_list lib files fnames compile =
     (if length fnames = 2
      then model_from_json lib files (fnames ! 0) (Some (fnames ! 1)) compile
      else (case fnames of
              [] \<Rightarrow> ([], Inl IndexError)
            | f0 # _ \<Rightarrow> model_from_pickle lib files f0))"

definition model_to_pickle :: "'m library \<Rightarrow> 'm \<Rightarrow> string \<Rightarrow> fs \<Rightarrow> io_op list \<times> fs" where
  "model_to_pickle lib model path files =
     ([OpenWriteBinary path], files(path \<mapsto> pickle_dump lib model))"

definition model_to_json ::
  "'m library \<Rightarrow> 'm \<Rightarrow> string \<Rightarrow> string option \<Rightarrow> fs \<Rightarrow> io_op list \<times> fs" where
  "model_to_json lib model json_file weights_file files =
     (let files1 = files(json_file \<mapsto> k_to_json lib model)
      in case weights_file of
           None \<Rightarrow> ([OpenWrite json_file], files1)
         | Some wfile \<Rightarrow> ([OpenWrite json_file, SaveWeights wfile], k_save_weights lib model wfile files1))"

text \<open>
  A small instance of the library, for evaluating the functions on concrete inputs: a model
  is the pair of its architecture text and its weights text, the weights file holds the
  weights text, and the pickled blob is the two texts joined by a line break.
\<close>

definition toy_library :: "(string \<times> string) library" where
  "toy_library =
     \<lparr>k_model_from_json = (\<lambda>text compile. Inr (text, [])),
      k_load_weights = (\<lambda>model wfile files.
         case wfile of
           None \<Rightarrow> Inl TypeError
         | Some path \<Rightarrow> (case files path of None \<Rightarrow> Inl IOError | Some w \<Rightarrow> Inr (fst model, w))),
      k_save_weights = (\<lambda>model path files. files(path \<mapsto> snd model)),
      k_to_json = fst,
      pickle_load = (\<lambda>blob. Inr (takeWhile (\<lambda>c. c \<noteq> CHR 0x0A) blob,
                                  drop 1 (dropWhile (\<lambda>c. c \<noteq> CHR 0x0A) blob))),
      pickle_dump = (\<lambda>model. fst model @ [CHR 0x0A] @ snd model)\<rparr>"

section \<open>\<open>deepcpg/net.py\<close>: \<open>copy_weights\<close>\<close>

text \<open>
  \<open>src.nodes\<close> and \<open>dst.nodes\<close> are dicts from node names to layers; what matters of a
  layer here is its weights, and every node name has a layer object of its own, as in the
  graphs that \<open>build\<close> assembles. \<open>ut.filter_regex\<close> (module \<open>deepcpg.utils\<close>) is the
  parameter \<open>filter_regex\<close>; it returns a list, which is truthy when it is not empty.
  \<open>dst.nodes[k].set_weights(w)\<close> replaces the weights of the node \<open>k\<close> of \<open>dst\<close>.
  The function returns the list \<open>copied\<close>; the model returns the nodes of \<open>dst\<close> as
  well.
\<close>

fun copy_weights_loop ::
  "(string \<Rightarrow> 'r \<Rightarrow> string list) \<Rightarrow> 'r \<Rightarrow> 'w pydict \<Rightarrow> 'w pydict \<Rightarrow> string list \<Rightarrow>
   'w pydict \<times> string list" where
  "copy_weights_loop filter_regex regexs [] dst copied = (dst, copied)"
| "copy_weights_loop filter_regex regexs ((k, v) # items) dst copied =
     (if filter_regex k regexs \<noteq> [] \<and> k \<in> fst ` set dst
      then copy_weights_loop filter_regex regexs items (AList.update k v dst) (copied @ [k])
      else copy_weights_loop filter_regex regexs items dst copied)"

definition copy_weights ::
  "(string \<Rightarrow> 'r \<Rightarrow> string list) \<Rightarrow> 'w pydict \<Rightarrow> 'w pydict \<Rightarrow> 'r \<Rightarrow> 'w pydict \<times> string list" where
  "copy_weights filter_regex src dst regexs = copy_weights_loop filter_regex regexs src dst []"

section \<open>\<open>scripts/train.py\<close>: \<open>evaluate\<close> and \<open>eval_io\<close>\<close>









section \<open>\<open>scripts/train.py\<close>: sample weights\<close>

text \<open>
  An array is its shape and the list of its entries in row order; a well-formed array has
  as many entries as the product of its shape. Labels and weights are rationals.
  \<open>io.MASK\<close> (module \<open>deepcpg.io\<close>) is the parameter \<open>MASK\<close>. Two floating-point
  operations are parameters: \<open>np_mean\<close> for the mean of the unmasked labels, and \<open>f16\<close>
  for the rounding of a value stored into the \<open>float16\<close> array.
  \<open>sample_weights[y == k] = v\<close> stores \<open>v\<close> at every position where the label is \<open>k\<close>.
\<close>

record ndarray =
  shape :: "nat list"
  entries :: "rat list"

definition np_ones :: "nat list \<Rightarrow> ndarray" where
  "np_ones s = \<lparr>shape = s, entries = replicate (prod_list s) 1\<rparr>"

definition assign_where_equal :: "ndarray \<Rightarrow> rat \<Rightarrow> rat \<Rightarrow> ndarray \<Rightarrow> ndarray" where
  "assign_where_equal y k v sample_weights =
     sample_weights\<lparr>entries :=
       map (\<lambda>(yi, wi). if yi = k then v else wi) (zip (entries y) (entries sample_weights))\<rparr>"

definition get_sample_weights ::
  "rat \<Rightarrow> (rat list \<Rightarrow> rat) \<Rightarrow> (rat \<Rightarrow> rat) \<Rightarrow> ndarray \<Rightarrow> bool \<Rightarrow> ndarray" where
  "get_sample_weights MASK np_mean f16 y weight_classes =
     (let class_weights0 = [(MASK, 0)];
          class_weights =
            (if weight_classes
             then (let t = np_mean (filter (\<lambda>v. v \<noteq> MASK) (entries y))
                   in AList.update 1 (1 - t) (AList.update 0 t class_weights0))
             else class_weights0);
          sample_weights = np_ones (shape y)
      in fold (\<lambda>(k, v) sw. assign_where_equal y k (f16 v) sw) class_weights sample_weights)"

text \<open>
  \<open>check_weights\<close>: \<open>w[h]\<close> are the entries of \<open>w\<close> where the label is masked, \<open>w[~h]\<close>
  the others; indexing with a boolean array of another shape raises \<open>IndexError\<close>.
\<close>

fun check_weights ::
  "rat \<Rightarrow> string list \<Rightarrow> ndarray pydict \<Rightarrow> ndarray pydict \<Rightarrow> py_error + unit" where
  "check_weights MASK [] y weights = Inr ()"
| "check_weights MASK (output # outputs) y weights =
     (case map_of y output of
        None \<Rightarrow> Inl KeyError
      | Some yo \<Rightarrow>
          (case map_of weights output of
             None \<Rightarrow> Inl KeyError
           | Some w \<Rightarrow>
               (let h = map (\<lambda>v. v = MASK) (entries yo)
                in if shape w \<noteq> shape yo \<or> length (entries w) \<noteq> length h then Inl IndexError
                   else if \<not> list_all (\<lambda>x. x = 0) (map snd (filter fst (zip h (entries w))))
                   then Inl AssertionError
                   else if \<not> list_all (\<lambda>x. x = 1)
                               (map snd (filter (\<lambda>p. \<not> fst p) (zip h (entries w))))
                   then Inl AssertionError
                   else check_weights MASK outputs y weights)))"

text \<open>
  Modelled from the spec: \<open>io.to_view\<close> (module \<open>deepcpg.io\<close> is not among the sources)
  turns the arrays of a dict into HDF5-backed data views; a view read with \<open>[:]\<close> gives
  the array it was made from.
\<close>

definition to_view :: "ndarray pydict \<Rightarrow> ndarray pydict" where
  "to_view d = d"

fun sample_weights_of ::
  "rat \<Rightarrow> (rat list \<Rightarrow> rat) \<Rightarrow> (rat \<Rightarrow> rat) \<Rightarrow> ndarray pydict \<Rightarrow> string list \<Rightarrow> ndarray pydict \<Rightarrow>
   py_error + ndarray pydict" where
  "sample_weights_of MASK np_mean f16 data [] weights = Inr weights"
| "sample_weights_of MASK np_mean f16 data (k # ks) weights =
     (case map_of data k of
        None \<Rightarrow> Inl KeyError
      | Some yk \<Rightarrow>
          sample_weights_of MASK np_mean f16 data ks
            (AList.update k (get_sample_weights MASK np_mean f16 yk False) weights))"

text \<open>
  \<open>read_data\<close>, after \<open>io.read_hdf\<close> has read the file: \<open>data\<close> is what it read and
  \<open>output_order\<close> is \<open>model.output_order\<close>.
\<close>

definition read_data ::
  "rat \<Rightarrow> (rat list \<Rightarrow> rat) \<Rightarrow> (rat \<Rightarrow> rat) \<Rightarrow> ndarray pydict \<Rightarrow> string list \<Rightarrow>
   py_error + (ndarray pydict \<times> ndarray pydict)" where
  "read_data MASK np_mean f16 data output_order =
     (case sample_weights_of MASK np_mean f16 data output_order [] of
        Inl err \<Rightarrow> Inl err
      | Inr weights \<Rightarrow>
          (let data_v = to_view data;
               weights_v = to_view weights
           in case check_weights MASK output_order data_v weights_v of
                Inl err \<Rightarrow> Inl err
              | Inr _ \<Rightarrow> Inr (data_v, weights_v)))"

section \<open>\<open>deepcpg/net.py\<close>: layers of the branches\<close>

text \<open>
  A layer is the constructor call that makes it, with the arguments the source passes:
  \<open>Convolution1D(nb_filter, filter_length, activation, init, W_regularizer, border_mode)\<close>,
  \<open>Convolution2D(nb_filter, nb_row, nb_col, activation, init, W_regularizer, border_mode)\<close>,
  \<open>MaxPooling1D(pool_length)\<close>, \<open>MaxPooling2D(pool_size)\<close>,
  \<open>Dense(output_dim, activation, init)\<close>, \<open>Dropout(p)\<close>, \<open>Activation(name)\<close>,
  \<open>Flatten()\<close> and \<open>BatchNormalization()\<close>.
\<close>

datatype weight_regularizer = WeightRegularizer rat rat

datatype layer =
    Dropout rat
  | Convolution1D int int string string weight_regularizer string
  | MaxPooling1D int
  | Convolution2D int int int string string weight_regularizer string
  | MaxPooling2D "int \<times> int"
  | Flatten
  | Dense int string string
  | BatchNormalization
  | Activation string

text \<open>
  The parameter objects (module \<open>deepcpg.net_params\<close>) are records of the attributes
  that \<open>net.py\<close> reads. Numbers are truthy when they are not zero. The parameters of the
  joint branch and of the targets have four attributes; those of the sequence and CpG
  branches have these and six more.
\<close>

record head_params =
  nb_hidden :: int
  batch_norm :: bool
  activation :: string
  drop_out :: rat

record conv_params = head_params +
  drop_in :: rat
  nb_filter :: "int list"
  filter_len :: "int list"
  pool_len :: "int list"
  l1 :: rat
  l2 :: rat

text \<open>Python's \<open>xs[l]\<close> for an index that is not negative.\<close>

definition py_nth :: "'a list \<Rightarrow> nat \<Rightarrow> py_error + 'a" where
  "py_nth xs l = (if l < length xs then Inr (xs ! l) else Inl IndexError)"

text \<open>
  The loop \<open>for l in range(nb_layer)\<close> of \<open>cpg_layers\<close>, over the indices still to
  come. The arguments of the convolution are read before it is appended, the pooling
  length after.
\<close>

fun cpg_conv_loop ::
  "conv_params \<Rightarrow> weight_regularizer \<Rightarrow> nat list \<Rightarrow> (string \<times> layer) list \<Rightarrow>
   py_error + (string \<times> layer) list" where
  "cpg_conv_loop params w_reg [] layers = Inr layers"
| "cpg_conv_loop params w_reg (l # ls) layers =
     (case py_nth (nb_filter params) l of
        Inl e \<Rightarrow> Inl e
      | Inr nf \<Rightarrow>
          (case py_nth (filter_len params) l of
             Inl e \<Rightarrow> Inl e
           | Inr fl \<Rightarrow>
               (let layers1 = layers @
                      [(''c'' @ string_of_nat (l + 1),
                        Convolution2D nf 1 fl (activation params) ''glorot_uniform'' w_reg ''same'')]
                in (case py_nth (pool_len params) l of
                      Inl e \<Rightarrow> Inl e
                    | Inr pl \<Rightarrow>
                        cpg_conv_loop params w_reg ls
                          (layers1 @ [(''p'' @ string_of_nat (l + 1), MaxPooling2D (1, pl))])))))"

definition cpg_layers :: "conv_params \<Rightarrow> py_error + (string \<times> layer) list" where
  "cpg_layers params =
     (let layers = [];
          layers = (if drop_in params \<noteq> 0 then layers @ [(''xd'', Dropout (drop_in params))]
                    else layers);
          nb_layer = length (nb_filter params);
          w_reg = WeightRegularizer (l1 params) (l2 params)
      in (case cpg_conv_loop params w_reg [0..<nb_layer] layers of
            Inl e \<Rightarrow> Inl e
          | Inr layers \<Rightarrow>
              (let layers = layers @ [(''f1'', Flatten)];
                   layers = (if drop_out params \<noteq> 0
                             then layers @ [(''f1d'', Dropout (drop_out params))] else layers);
                   layers =
                     (if nb_hidden params \<noteq> 0
                      then (let layers = layers @
                                  [(''h1'', Dense (nb_hidden params) ''linear'' ''glorot_uniform'')];
                                layers = (if batch_norm params
                                          then layers @ [(''h1b'', BatchNormalization)]
                                          else layers);
                                layers = layers @ [(''h1a'', Activation (activation params))];
                                layers = (if drop_out params \<noteq> 0
                                          then layers @ [(''h1d'', Dropout (drop_out params))]
                                          else layers)
                            in layers)
                      else layers)
               in Inr layers)))"

fun seq_conv_loop ::
  "conv_params \<Rightarrow> weight_regularizer \<Rightarrow> nat list \<Rightarrow> (string \<times> layer) list \<Rightarrow>
   py_error + (string \<times> layer) list" where
  "seq_conv_loop params w_reg [] layers = Inr layers"
| "seq_conv_loop params w_reg (l # ls) layers =
     (case py_nth (nb_filter params) l of
        Inl e \<Rightarrow> Inl e
      | Inr nf \<Rightarrow>
          (case py_nth (filter_len params) l of
             Inl e \<Rightarrow> Inl e
           | Inr fl \<Rightarrow>
               (let layers1 = layers @
                      [(''c'' @ string_of_nat (l + 1),
                        Convolution1D nf fl (activation params) ''glorot_uniform'' w_reg ''same'')]
                in (case py_nth (pool_len params) l of
                      Inl e \<Rightarrow> Inl e
                    | Inr pl \<Rightarrow>
                        seq_conv_loop params w_reg ls
                          (layers1 @ [(''p'' @ string_of_nat (l + 1), MaxPooling1D pl)])))))"

definition seq_layers :: "conv_params \<Rightarrow> py_error + (string \<times> layer) list" where
  "seq_layers params =
     (let layers = [];
          layers = (if drop_in params \<noteq> 0 then layers @ [(''xd'', Dropout (drop_in params))]
                    else layers);
          nb_layer = length (nb_filter params);
          w_reg = WeightRegularizer (l1 params) (l2 params)
      in (case seq_conv_loop params w_reg [0..<nb_layer] layers of
            Inl e \<Rightarrow> Inl e
          | Inr layers \<Rightarrow>
              (let layers = layers @ [(''f1'', Flatten)];
                   layers = (if drop_out params \<noteq> 0
                             then layers @ [(''f1d'', Dropout (drop_out params))] else layers);
                   layers =
                     (if nb_hidden params \<noteq> 0
                      then (let layers = layers @
                                  [(''h1'', Dense (nb_hidden params) ''linear'' ''glorot_uniform'')];
                                layers = (if batch_norm params
                                          then layers @ [(''h1b'', BatchNormalization)]
                                          else layers);
                                layers = layers @ [(''h1a'', Activation (activation params))];
                                layers = (if drop_out params \<noteq> 0
                                          then layers @ [(''h1d'', Dropout (drop_out params))]
                                          else layers)
                            in layers)
                      else layers)
               in Inr layers)))"

definition joint_layers :: "head_params \<Rightarrow> (string \<times> layer) list" where
  "joint_layers params =
     (let layers = [];
          layers = layers @ [(''h1'', Dense (nb_hidden params) ''linear'' ''glorot_uniform'')];
          layers = (if batch_norm params then layers @ [(''h1b'', BatchNormalization)]
                    else layers);
          layers = layers @ [(''h1a'', Activation (activation params))];
          layers = (if drop_out params \<noteq> 0 then layers @ [(''h1d'', Dropout (drop_out params))]
                    else layers)
      in layers)"

definition target_layers :: "head_params \<Rightarrow> (string \<times> layer) list" where
  "target_layers params =
     (let layers = [];
          layers =
            (if nb_hidden params \<noteq> 0
             then (let layers = layers @
                         [(''h1'', Dense (nb_hidden params) ''linear'' ''glorot_uniform'')];
                       layers = (if batch_norm params
                                 then layers @ [(''h1b'', BatchNormalization)] else layers);
                       layers = layers @ [(''h1a'', Activation (activation params))];
                       layers = (if drop_out params \<noteq> 0
                                 then layers @ [(''h1d'', Dropout (drop_out params))]
                                 else layers)
                   in layers)
             else layers);
          layers = layers @ [(''o'', Dense 1 ''sigmoid'' ''glorot_uniform'')]
      in layers)"

section \<open>\<open>deepcpg/net.py\<close>: \<open>add_layers\<close> and \<open>build\<close>\<close>

text \<open>
  The graph of the neural-network library (\<open>CpgGraph\<close>) is the record of the calls made
  on it: the inputs with their shapes, the nodes with their layer and what feeds them
  (\<open>input=\<close> one node, or \<open>inputs=\<close> several, which the library merges), the outputs
  with the node each reads, the order of the outputs, and what \<open>compile\<close> was given. The
  library's own checks of the names it is given are not part of the record.
\<close>

datatype node_input = Input string | Inputs "string list"

record graph =
  inputs :: "(string \<times> nat list) list"
  nodes :: "(string \<times> layer \<times> node_input) list"
  outputs :: "(string \<times> string) list"
  output_order :: "string list"
  compiled :: "(string pydict \<times> string \<times> (string \<times> rat) list) option"

definition CpgGraph :: graph where
  "CpgGraph = \<lparr>inputs = [], nodes = [], outputs = [], output_order = [], compiled = None\<rparr>"

definition add_input :: "graph \<Rightarrow> string \<Rightarrow> nat list \<Rightarrow> graph" where
  "add_input model name input_shape = model\<lparr>inputs := inputs model @ [(name, input_shape)]\<rparr>"

definition add_node :: "graph \<Rightarrow> node_input \<Rightarrow> string \<Rightarrow> layer \<Rightarrow> graph" where
  "add_node model inp name lay = model\<lparr>nodes := nodes model @ [(name, lay, inp)]\<rparr>"

definition add_output :: "graph \<Rightarrow> string \<Rightarrow> string \<Rightarrow> graph" where
  "add_output model inp name =
     model\<lparr>outputs := outputs model @ [(name, inp)], output_order := output_order model @ [name]\<rparr>"

text \<open>
  \<open>add_layers\<close> changes the graph and returns the last node; the model returns both.
  \<open>prev_nodes[0]\<close> on an empty list raises \<open>IndexError\<close>.
\<close>

fun add_layers ::
  "graph \<Rightarrow> (string \<times> layer) list \<Rightarrow> string list \<Rightarrow> string \<Rightarrow> py_error + graph \<times> string list" where
  "add_layers model [] prev_nodes prefix = Inr (model, prev_nodes)"
| "add_layers model ((cur_node0, cur_layer) # layers) prev_nodes prefix =
     (let cur_node = prefix @ ''_'' @ cur_node0
      in if length prev_nodes > 1
         then add_layers (add_node model (Inputs prev_nodes) cur_node cur_layer) layers
                [cur_node] prefix
         else (case prev_nodes of
                 [] \<Rightarrow> Inl IndexError
               | p0 # _ \<Rightarrow>
                   add_layers (add_node model (Input p0) cur_node cur_layer) layers
                     [cur_node] prefix))"

record params =
  seq :: "conv_params option"
  cpg :: "conv_params option"
  joint :: "head_params option"
  target :: head_params
  optimizer :: string
  optimizer_params :: "(string \<times> rat) list"
  params_loss :: "loss_spec option"

text \<open>
  The loop \<open>for target in targets\<close> of \<open>build\<close>. \<open>target_layers\<close> never returns an
  empty list, so \<open>last\<close> has one element when \<open>add_layers\<close> returns.
\<close>

fun add_targets ::
  "graph \<Rightarrow> head_params \<Rightarrow> string list \<Rightarrow> string list \<Rightarrow> string list \<Rightarrow>
   py_error + graph \<times> string list" where
  "add_targets model tparams branch_nodes [] outs = Inr (model, outs)"
| "add_targets model tparams branch_nodes (tgt # targets) outs =
     (let layers = target_layers tparams
      in (case add_layers model layers branch_nodes tgt of
            Inl e \<Rightarrow> Inl e
          | Inr (model1, last_nodes) \<Rightarrow>
              (case last_nodes of
                 [] \<Rightarrow> Inl IndexError
               | last0 # _ \<Rightarrow>
                   (let output = tgt @ ''_'' @ ''y''
                    in add_targets (add_output model1 last0 output) tparams branch_nodes targets
                         (outs @ [output])))))"

text \<open>
  \<open>build(params, targets, seq_len, cpg_len, compile, nb_unit)\<close>, block by block. Each
  of the three blocks \<open>if params.seq:\<close>, \<open>if params.cpg:\<close> and
  \<open>if params.joint and params.joint.nb_hidden > 0:\<close> takes the graph and \<open>branch_nodes\<close>
  and gives them back. A failed \<open>assert\<close> raises \<open>AssertionError\<close>.
\<close>

definition build_seq ::
  "params \<Rightarrow> nat option \<Rightarrow> graph \<Rightarrow> string list \<Rightarrow> py_error + graph \<times> string list" where
  "build_seq ps seq_len model branch_nodes =
     (case seq ps of
        None \<Rightarrow> Inr (model, branch_nodes)
      | Some sp \<Rightarrow>
          (case seq_len of
             None \<Rightarrow> Inl AssertionError
           | Some sl \<Rightarrow>
               (let prev_nodes = [''s_x''];
                    model1 = add_input model ''s_x'' [sl, 4]
                in (case seq_layers sp of
                      Inl e \<Rightarrow> Inl e
                    | Inr layers \<Rightarrow>
                        (case add_layers model1 layers prev_nodes ''s'' of
                           Inl e \<Rightarrow> Inl e
                         | Inr (model2, prev_nodes2) \<Rightarrow>
                             Inr (model2, branch_nodes @ prev_nodes2))))))"

definition build_cpg ::
  "params \<Rightarrow> string list \<Rightarrow> nat option \<Rightarrow> nat option \<Rightarrow> graph \<Rightarrow> string list \<Rightarrow>
   py_error + graph \<times> string list" where
  "build_cpg ps targets cpg_len nb_unit model branch_nodes =
     (case cpg ps of
        None \<Rightarrow> Inr (model, branch_nodes)
      | Some cp \<Rightarrow>
          (case cpg_len of
             None \<Rightarrow> Inl AssertionError
           | Some cl \<Rightarrow>
               (let nb_unit1 = (case nb_unit of None \<Rightarrow> length targets | Some n \<Rightarrow> n);
                    prev_nodes = [''c_x''];
                    model1 = add_input model ''c_x'' [2, nb_unit1, cl]
                in (case cpg_layers cp of
                      Inl e \<Rightarrow> Inl e
                    | Inr layers \<Rightarrow>
                        (case add_layers model1 layers prev_nodes ''c'' of
                           Inl e \<Rightarrow> Inl e
                         | Inr (model2, prev_nodes2) \<Rightarrow>
                             Inr (model2, branch_nodes @ prev_nodes2))))))"

definition build_joint ::
  "params \<Rightarrow> graph \<Rightarrow> string list \<Rightarrow> py_error + graph \<times> string list" where
  "build_joint ps model branch_nodes =
     (case joint ps of
        None \<Rightarrow> Inr (model, branch_nodes)
      | Some jp \<Rightarrow>
          (if nb_hidden jp > 0
           then add_layers model (joint_layers jp) branch_nodes ''j''
           else Inr (model, branch_nodes)))"

text \<open>
  The optimizer object that \<open>optimizer_from_params\<close> gets from the library is
  represented by its name and parameters.
\<close>

definition build ::
  "params \<Rightarrow> string list \<Rightarrow> nat option \<Rightarrow> nat option \<Rightarrow> bool \<Rightarrow> nat option \<Rightarrow> py_error + graph" where
  "build ps targets seq_len cpg_len compile nb_unit =
     (case build_seq ps seq_len CpgGraph [] of
        Inl e \<Rightarrow> Inl e
      | Inr (model1, branch_nodes1) \<Rightarrow>
          (case build_cpg ps targets cpg_len nb_unit model1 branch_nodes1 of
             Inl e \<Rightarrow> Inl e
           | Inr (model2, branch_nodes2) \<Rightarrow>
               (case build_joint ps model2 branch_nodes2 of
                  Inl e \<Rightarrow> Inl e
                | Inr (model3, branch_nodes3) \<Rightarrow>
                    (case add_targets model3 (target ps) branch_nodes3 targets [] of
                       Inl e \<Rightarrow> Inl e
                     | Inr (model4, outs) \<Rightarrow>
                         (if compile
                          then Inr (model4\<lparr>compiled :=
                                      Some (loss_from_ids (output_order model4) (params_loss ps),
                                            optimizer ps, optimizer_params ps)\<rparr>)
                          else Inr model4)))))"

text \<open>
  The wiring of a list of layers as a chain, stated directly: the first node reads the
  given nodes (merged when they are several), every other node reads the node before
  it. It is what \<open>add_layers\<close> is compared with.
\<close>

definition feed :: "string list \<Rightarrow> node_input" where
  "feed prev_nodes = (if length prev_nodes > 1 then Inputs prev_nodes else Input (hd prev_nodes))"

fun wired_chain ::
  "string \<Rightarrow> (string \<times> layer) list \<Rightarrow> node_input \<Rightarrow> (string \<times> layer \<times> node_input) list" where
  "wired_chain prefix [] inp = []"
| "wired_chain prefix ((name, lay) # layers) inp =
     (prefix @ ''_'' @ name, lay, inp) # wired_chain prefix layers (Input (prefix @ ''_'' @ name))"

section \<open>Properties of \<open>progress\<close>\<close>

lemma bit_length_bounds:
  "0 < n \<Longrightarrow> 2 ^ (bit_length n - 1) \<le> n \<and> n < 2 ^ bit_length n"
proof (induction n rule: bit_length.induct)
  case (1 n)
  show ?case
  proof (cases "n div 2 = 0")
    case True
    with 1(2) have "n = 1" by presburger
    then show ?thesis by (simp add: bit_length.simps)
  next
    case False
    then have pos: "0 < n div 2" by simp
    from 1(1) [OF _ pos] 1(2)
    have ih: "2 ^ (bit_length (n div 2) - 1) \<le> n div 2" "n div 2 < 2 ^ bit_length (n div 2)"
      by auto
    have bl: "bit_length n = Suc (bit_length (n div 2))"
      using 1(2) by (subst bit_length.simps) simp
    have blpos: "0 < bit_length (n div 2)"
      using pos by (subst bit_length.simps) simp
    then obtain k where k: "bit_length (n div 2) = Suc k" by (cases "bit_length (n div 2)") auto
    have d: "2 * (n div 2) \<le> n" "n < 2 * (n div 2) + 2" by presburger+
    define h where "h = n div 2"
    define p where "p = (2::nat) ^ k"
    from ih have "p \<le> h" "h < 2 * p" unfolding k h_def p_def by simp_all
    with d have "2 * p \<le> n" "n < 2 * (2 * p)" unfolding h_def by linarith+
    then show ?thesis by (simp add: bl k p_def)
  qed
qed

lemma bit_length_pos: "0 < n \<Longrightarrow> 0 < bit_length n"
  by (subst bit_length.simps) simp

lemma bit_length_rat:
  assumes "0 < a"
  shows "2 powi (int (bit_length (nat a)) - 1) \<le> rat_of_int a"
    and "rat_of_int a < 2 powi int (bit_length (nat a))"
proof -
  let ?l = "bit_length (nat a)"
  from assms have pos: "0 < nat a" by simp
  from bit_length_bounds [OF pos] have b: "2 ^ (?l - 1) \<le> nat a" "nat a < 2 ^ ?l" by simp_all
  from bit_length_pos [OF pos] have l: "int ?l - 1 = int (?l - 1)" by simp
  have a: "rat_of_int a = rat_of_nat (nat a)" using assms by simp
  have "rat_of_nat (2 ^ (?l - 1)) \<le> rat_of_nat (nat a)" using b(1) by (simp only: of_nat_le_iff)
  then have "2 ^ (?l - 1) \<le> rat_of_int a" unfolding a by simp
  then show "2 powi (int ?l - 1) \<le> rat_of_int a" unfolding l by (simp only: power_int_of_nat)
  have "rat_of_nat (nat a) < rat_of_nat (2 ^ ?l)" using b(2) by (simp only: of_nat_less_iff)
  then have "rat_of_int a < 2 ^ ?l" unfolding a by simp
  then show "rat_of_int a < 2 powi int ?l" by (simp only: power_int_of_nat)
qed

lemma float_exponent_bounds:
  assumes "0 < a" "0 < b"
  shows "2 powi float_exponent a b * rat_of_int b \<le> rat_of_int a"
    and "rat_of_int a < 2 powi (float_exponent a b + 1) * rat_of_int b"
proof -
  let ?la = "int (bit_length (nat a))" and ?lb = "int (bit_length (nat b))"
  let ?d = "?la - ?lb"
  have two: "(2::rat) \<noteq> 0" by simp
  have bpos: "0 < rat_of_int b" using assms by simp
  note A = bit_length_rat [OF assms(1)] and B = bit_length_rat [OF assms(2)]
  have e1: "(2::rat) powi (?d + 1) * 2 powi (?lb - 1) = 2 powi ?la"
    using power_int_add [of "2::rat" "?d + 1" "?lb - 1"] by simp
  have e2: "(2::rat) powi (?d - 1) * 2 powi ?lb = 2 powi (?la - 1)"
    using power_int_add [of "2::rat" "?d - 1" "?lb"] by simp
  have p1: "0 < (2::rat) powi (?d + 1)" and p2: "0 < (2::rat) powi (?d - 1)"
    by (simp_all add: zero_less_power_int)
  show "2 powi float_exponent a b * rat_of_int b \<le> rat_of_int a"
  proof (cases "2 powi ?d * rat_of_int b \<le> rat_of_int a")
    case True
    then show ?thesis by (simp add: float_exponent_def Let_def)
  next
    case False
    have "2 powi (?d - 1) * rat_of_int b \<le> 2 powi (?d - 1) * 2 powi ?lb"
      using B(2) p2 by (intro mult_left_mono) simp_all
    also have "\<dots> = 2 powi (?la - 1)" by (rule e2)
    also have "\<dots> \<le> rat_of_int a" by (rule A(1))
    finally show ?thesis using False by (simp add: float_exponent_def Let_def)
  qed
  show "rat_of_int a < 2 powi (float_exponent a b + 1) * rat_of_int b"
  proof (cases "2 powi ?d * rat_of_int b \<le> rat_of_int a")
    case True
    have "rat_of_int a < 2 powi ?la" by (rule A(2))
    also have "\<dots> = 2 powi (?d + 1) * 2 powi (?lb - 1)" by (rule e1 [symmetric])
    also have "\<dots> \<le> 2 powi (?d + 1) * rat_of_int b"
      using B(1) p1 by (intro mult_left_mono) simp_all
    finally show ?thesis using True by (simp add: float_exponent_def Let_def)
  next
    case False
    then show ?thesis by (simp add: float_exponent_def Let_def)
  qed
qed

lemma round_half_even_le:
  assumes "0 < den" "num \<le> K * den"
  shows "round_half_even num den \<le> K"
proof -
  let ?f = "num div den" and ?r = "num mod den"
  have r: "0 \<le> ?r" "?r < den" using assms(1) by simp_all
  have eq: "num = ?f * den + ?r" by simp
  have fK: "?f \<le> K"
  proof -
    have "num div den \<le> (K * den) div den" using assms by (intro zdiv_mono1) simp_all
    then show ?thesis using assms(1) by simp
  qed
  show ?thesis
  proof (cases "?f = K")
    case True
    with eq assms(2) r have "?r = 0" by (metis add_le_same_cancel1 order_antisym)
    with True assms(1) show ?thesis by (simp add: round_half_even_def Let_def)
  next
    case False
    with fK have "?f + 1 \<le> K" by simp
    then show ?thesis by (simp add: round_half_even_def Let_def)
  qed
qed

lemma round_half_even_ge: "0 < den \<Longrightarrow> num div den \<le> round_half_even num den"
  by (simp add: round_half_even_def Let_def)

lemma round_half_even_gt:
  assumes "0 < den" "den < 2 * (num - K * den)"
  shows "K < round_half_even num den"
proof -
  let ?f = "num div den" and ?r = "num mod den"
  have eq: "num = ?f * den + ?r" by simp
  have "K * den \<le> num" using assms by simp
  then have "(K * den) div den \<le> num div den" using assms(1) by (intro zdiv_mono1) simp_all
  then have Kf: "K \<le> ?f" using assms(1) by simp
  show ?thesis
  proof (cases "?f = K")
    case True
    then have "?r = num - K * den" using eq by simp
    with assms(2) True show ?thesis by (simp add: round_half_even_def Let_def)
  next
    case False
    with Kf have "K < ?f" by simp
    with round_half_even_ge [OF assms(1), of num] show ?thesis by simp
  qed
qed


lemma true_div_pos:
  assumes "0 < a" "0 < b"
  shows "true_div a b =
           (if 2 powi 1024 \<le> round_quotient a b then Inl OverflowError
            else Inr (round_quotient a b))"
  using assms by (simp add: true_div_def Let_def)

lemma powi_cancel:
  assumes "shift \<le> 0"
  shows "rat_of_int (x * 2 ^ nat (- shift)) * 2 powi shift = rat_of_int x"
proof -
  have "(2::rat) powi (int (nat (- shift)) + shift) = 2 powi int (nat (- shift)) * 2 powi shift"
    by (rule power_int_add) simp
  moreover have "int (nat (- shift)) + shift = 0" using assms by simp
  ultimately have "(2::rat) ^ nat (- shift) * 2 powi shift = 1"
    by (simp only: power_int_of_nat power_int_0_right)
  then have "rat_of_int x * (2 ^ nat (- shift) * 2 powi shift) = rat_of_int x" by simp
  then show ?thesis by (simp only: of_int_mult of_int_power of_int_numeral mult.assoc)
qed

lemma exponent_below:
  assumes "0 < a" "0 < b" "a \<le> k * b" "k < 2 ^ 53"
  shows "float_exponent a b \<le> 52"
proof (rule ccontr)
  assume "\<not> float_exponent a b \<le> 52"
  then have "53 \<le> float_exponent a b" by simp
  then have "(2::rat) powi 53 \<le> 2 powi float_exponent a b"
    by (intro power_int_increasing) simp_all
  then have "(2::rat) powi 53 * rat_of_int b \<le> 2 powi float_exponent a b * rat_of_int b"
    using assms(2) by (intro mult_right_mono) simp_all
  also have "\<dots> \<le> rat_of_int a" by (rule float_exponent_bounds(1) [OF assms(1,2)])
  also have "\<dots> \<le> rat_of_int (k * b)" using assms(3) by (simp only: of_int_le_iff)
  finally have "(2::rat) powi 53 * rat_of_int b \<le> rat_of_int k * rat_of_int b" by simp
  then have "(2::rat) powi 53 \<le> rat_of_int k" using assms(2) by simp
  then have "rat_of_int (2 ^ 53) \<le> rat_of_int k" by simp
  then have "(2::int) ^ 53 \<le> k" by (simp only: of_int_le_iff)
  with assms(4) show False by simp
qed

lemma true_div_rounded:
  assumes "0 < a" "0 < b" "a \<le> k * b" "k < 2 ^ 53"
  shows "\<exists>shift. shift \<le> 0 \<and> shift = max (float_exponent a b) (- 1022) - 52 \<and>
           true_div a b =
             Inr (rat_of_int (round_half_even (a * 2 ^ nat (- shift)) b) * 2 powi shift) \<and>
           0 \<le> round_half_even (a * 2 ^ nat (- shift)) b \<and>
           round_half_even (a * 2 ^ nat (- shift)) b \<le> k * 2 ^ nat (- shift)"
proof -
  define shift where "shift = max (float_exponent a b) (- 1022) - 52"
  define n where "n = nat (- shift)"
  define m where "m = round_half_even (a * 2 ^ n) b"
  have sh: "shift \<le> 0"
    using exponent_below [OF assms] by (simp add: shift_def)
  have m_eq: "(if 0 \<le> shift then round_half_even a (b * 2 ^ nat shift)
               else round_half_even (a * 2 ^ nat (- shift)) b) = m"
  proof (cases "shift = 0")
    case True
    then show ?thesis by (simp add: m_def n_def)
  next
    case False
    with sh show ?thesis by (simp add: m_def n_def)
  qed
  have "a * 2 ^ n \<le> (k * 2 ^ n) * b"
    using assms(3) by (simp add: mult.assoc mult.left_commute mult.commute)
  then have m_le: "m \<le> k * 2 ^ n"
    unfolding m_def using assms(2) by (intro round_half_even_le) simp_all
  have "0 \<le> (a * 2 ^ n) div b"
    using assms(1,2) by (simp add: pos_imp_zdiv_nonneg_iff)
  with round_half_even_ge [OF assms(2), of "a * 2 ^ n"] have m_ge: "0 \<le> m"
    unfolding m_def by simp
  define r where "r = rat_of_int m * 2 powi shift"
  have pw: "0 < (2::rat) powi shift" by (simp add: zero_less_power_int)
  have "rat_of_int m \<le> rat_of_int (k * 2 ^ n)" using m_le by (simp only: of_int_le_iff)
  then have "r \<le> rat_of_int (k * 2 ^ n) * 2 powi shift"
    unfolding r_def using pw by (intro mult_right_mono) (assumption, simp)
  also have "\<dots> = rat_of_int k" unfolding n_def by (rule powi_cancel [OF sh])
  finally have r_le: "r \<le> rat_of_int k" .
  have "rat_of_int k < rat_of_int (2 ^ 53)" using assms(4) by (simp only: of_int_less_iff)
  also have "\<dots> < 2 powi 1024" by simp
  finally have "\<not> 2 powi 1024 \<le> r" using r_le by simp
  moreover have "round_quotient a b = r"
    unfolding round_quotient_def Let_def shift_def [symmetric] m_eq r_def ..
  ultimately have "true_div a b = Inr r"
    unfolding true_div_pos [OF assms(1,2)] by simp
  with sh m_ge m_le show ?thesis
    unfolding r_def m_def n_def shift_def [symmetric] by blast
qed


lemma true_div_upper:
  assumes "0 < a" "0 < b" "a \<le> k * b" "k < 2 ^ 53"
  shows "\<exists>r. true_div a b = Inr r \<and> 0 \<le> r \<and> r \<le> rat_of_int k"
proof -
  from true_div_rounded [OF assms] obtain shift where
    sh: "shift \<le> 0"
    and r: "true_div a b =
              Inr (rat_of_int (round_half_even (a * 2 ^ nat (- shift)) b) * 2 powi shift)"
    and m_ge: "0 \<le> round_half_even (a * 2 ^ nat (- shift)) b"
    and m_le: "round_half_even (a * 2 ^ nat (- shift)) b \<le> k * 2 ^ nat (- shift)"
    by blast
  define m where "m = round_half_even (a * 2 ^ nat (- shift)) b"
  have pw: "0 < (2::rat) powi shift" by (simp add: zero_less_power_int)
  have "rat_of_int m \<le> rat_of_int (k * 2 ^ nat (- shift))"
    using m_le unfolding m_def by (simp only: of_int_le_iff)
  then have "rat_of_int m * 2 powi shift \<le> rat_of_int (k * 2 ^ nat (- shift)) * 2 powi shift"
    using pw by (intro mult_right_mono) (assumption, simp)
  also have "\<dots> = rat_of_int k" by (rule powi_cancel [OF sh])
  finally have le: "rat_of_int m * 2 powi shift \<le> rat_of_int k" .
  have "0 \<le> rat_of_int m" using m_ge unfolding m_def by simp
  then have ge: "0 \<le> rat_of_int m * 2 powi shift" using pw by simp
  from r le ge show ?thesis unfolding m_def by blast
qed

lemma true_div_lower:
  assumes "0 < b" "2 \<le> k" "(k - 1) * b < a" "a < 2 ^ 53" "true_div a b = Inr r"
  shows "rat_of_int (k - 1) < r"
proof -
  have kb: "b \<le> (k - 1) * b"
    using mult_right_mono [of 1 "k - 1" b] assms(1,2) by simp
  have apos: "0 < a" and ba: "b < a" using kb assms(1,3) by linarith+
  have ab: "a \<le> a * b"
    using mult_left_mono [of 1 b a] assms(1) apos by simp
  define e0 where "e0 = float_exponent a b"
  have e0: "0 \<le> e0"
  proof (rule ccontr)
    assume "\<not> 0 \<le> e0"
    then have "e0 + 1 \<le> 0" by simp
    then have "(2::rat) powi (e0 + 1) \<le> 2 powi 0"
      by (intro power_int_increasing) simp_all
    then have "(2::rat) powi (e0 + 1) * rat_of_int b \<le> 1 * rat_of_int b"
      using assms(1) by (intro mult_right_mono) simp_all
    with float_exponent_bounds(2) [OF apos assms(1)] have "rat_of_int a < rat_of_int b"
      unfolding e0_def by simp
    then have "a < b" by (simp only: of_int_less_iff)
    with ba show False by simp
  qed
  from true_div_rounded [OF apos assms(1) ab assms(4)] obtain shift where
    sh: "shift \<le> 0"
    and shd: "shift = max (float_exponent a b) (- 1022) - 52"
    and r0: "true_div a b =
              Inr (rat_of_int (round_half_even (a * 2 ^ nat (- shift)) b) * 2 powi shift)"
    by blast
  define n where "n = nat (- shift)"
  define m where "m = round_half_even (a * 2 ^ n) b"
  from r0 assms(5) have r: "r = rat_of_int m * 2 powi shift" unfolding m_def n_def by simp
  have shift: "shift = e0 - 52" using shd e0 unfolding e0_def by simp
  have sum: "nat e0 + Suc n = 53" using shift sh e0 unfolding n_def by simp
  have "(2::rat) powi e0 = 2 ^ nat e0" using e0 by (simp add: power_int_def)
  with float_exponent_bounds(1) [OF apos assms(1)]
  have "rat_of_int (2 ^ nat e0 * b) \<le> rat_of_int a" unfolding e0_def by simp
  then have "2 ^ nat e0 * b \<le> a" by (simp only: of_int_le_iff)
  with assms(4) have "2 ^ nat e0 * b < (2::int) ^ (nat e0 + Suc n)" unfolding sum by simp
  then have "2 ^ nat e0 * b < 2 ^ nat e0 * (2::int) ^ Suc n" by (simp only: power_add)
  then have b_lt: "b < 2 ^ Suc n" by (simp only: mult_less_cancel_left_pos zero_less_power zero_less_numeral)
  define D where "D = a - (k - 1) * b"
  have D: "1 \<le> D" using assms(3) unfolding D_def by simp
  have "(2::int) ^ Suc n \<le> 2 ^ Suc n * D"
    using mult_left_mono [of 1 D "2 ^ Suc n"] D by simp
  with b_lt have "b < 2 ^ Suc n * D" by (rule less_le_trans)
  also have "2 ^ Suc n * D = 2 * (a * 2 ^ n - ((k - 1) * 2 ^ n) * b)"
    unfolding D_def by (simp add: algebra_simps)
  finally have "(k - 1) * 2 ^ n < m"
    unfolding m_def using assms(1) by (intro round_half_even_gt) simp_all
  then have "rat_of_int ((k - 1) * 2 ^ n) < rat_of_int m" by (simp only: of_int_less_iff)
  moreover have pw: "0 < (2::rat) powi shift" by (simp add: zero_less_power_int)
  ultimately have lt: "rat_of_int ((k - 1) * 2 ^ n) * 2 powi shift < rat_of_int m * 2 powi shift"
    by (intro mult_strict_right_mono)
  have eq: "rat_of_int ((k - 1) * 2 ^ n) * 2 powi shift = rat_of_int (k - 1)"
    unfolding n_def by (rule powi_cancel [OF sh])
  from lt show ?thesis unfolding eq r .
qed

lemma true_div_neg:
  assumes "0 < a" "b < 0"
  shows "true_div a b = (case true_div a (- b) of Inl e \<Rightarrow> Inl e | Inr r \<Rightarrow> Inr (- r))"
  using assms by (simp add: true_div_def Let_def)

lemma true_div_ceiling:
  assumes "0 < a" "a < 2 ^ 53" "b \<noteq> 0"
  shows "\<exists>r. true_div a b = Inr r \<and>
           max 1 \<lceil>r\<rceil> = max 1 \<lceil>real_of_int a / real_of_int b\<rceil>"
proof (cases "0 < b")
  case True
  define k where "k = \<lceil>real_of_int a / real_of_int b\<rceil>"
  have bpos: "0 < real_of_int b" using True by simp
  have "real_of_int a / real_of_int b \<le> real_of_int k" unfolding k_def by (rule le_of_int_ceiling)
  then have "real_of_int a \<le> real_of_int k * real_of_int b"
    using bpos by (simp add: pos_divide_le_eq)
  then have "real_of_int a \<le> real_of_int (k * b)" by simp
  then have ak: "a \<le> k * b" by (simp only: of_int_le_iff)
  have "real_of_int k - 1 < real_of_int a / real_of_int b"
    unfolding k_def using ceiling_correct [of "real_of_int a / real_of_int b"] by simp
  then have "(real_of_int k - 1) * real_of_int b < real_of_int a"
    using bpos by (simp add: pos_less_divide_eq)
  then have "real_of_int ((k - 1) * b) < real_of_int a" by simp
  then have ka: "(k - 1) * b < a" by (simp only: of_int_less_iff)
  have "real_of_int a / real_of_int b \<le> real_of_int a"
    using assms(1) True by (simp add: pos_divide_le_eq mult_le_cancel_left1)
  then have "k \<le> a" unfolding k_def by (simp add: ceiling_le_iff)
  with assms(2) have k53: "k < 2 ^ 53" by simp
  have "0 < real_of_int a / real_of_int b" using assms(1) True by simp
  then have k1: "1 \<le> k" unfolding k_def by (simp add: less_ceiling_iff [symmetric] del: ceiling_less_iff)
  from true_div_upper [OF assms(1) True ak k53] obtain r where
    r: "true_div a b = Inr r" and r0: "0 \<le> r" and rk: "r \<le> rat_of_int k" by blast
  have "max 1 \<lceil>r\<rceil> = max 1 k"
  proof (cases "k = 1")
    case True
    with rk have "\<lceil>r\<rceil> \<le> 1" by (simp add: ceiling_le_iff)
    with True show ?thesis by simp
  next
    case False
    with k1 have k2: "2 \<le> k" by simp
    from true_div_lower [OF \<open>0 < b\<close> k2 ka assms(2) r] have "rat_of_int k - 1 < r" by simp
    with rk have "\<lceil>r\<rceil> = k" by (intro ceiling_unique) simp_all
    then show ?thesis by simp
  qed
  with r show ?thesis unfolding k_def by blast
next
  case False
  with assms(3) have neg: "b < 0" by simp
  then have nb: "0 < - b" by simp
  have ab: "a \<le> a * (- b)"
    using mult_left_mono [of 1 "- b" a] assms(1) nb by simp
  from true_div_upper [OF assms(1) nb ab assms(2)] obtain r where
    r: "true_div a (- b) = Inr r" and r0: "0 \<le> r" by blast
  have t: "true_div a b = Inr (- r)" using true_div_neg [OF assms(1) neg] r by simp
  have "\<lceil>- r\<rceil> \<le> 0" using r0 by (simp add: ceiling_le_iff)
  then have m1: "max 1 \<lceil>- r\<rceil> = 1" by simp
  have "real_of_int a / real_of_int b \<le> 0"
    using assms(1) neg by (simp add: divide_le_0_iff)
  then have "\<lceil>real_of_int a / real_of_int b\<rceil> \<le> 0" by (simp add: ceiling_le_iff)
  then have "max 1 \<lceil>real_of_int a / real_of_int b\<rceil> = 1" by simp
  with t m1 show ?thesis by simp
qed

text \<open>
  Claim C10, as stated, fails for a large number of batches: the divisor is the ceiling
  of the float quotient, not of the exact one. For \<open>nb_batch = 2 ^ 53 + 1\<close> and \<open>s = 1\<close> the
  float quotient is \<open>2 ^ 53\<close>, so \<open>progress\<close> returns a message at
  \<open>batch_index + 1 = 2 ^ 53\<close>, which is neither 1, nor \<open>nb_batch\<close>, nor divisible by
  \<open>max(1, ceil(nb_batch / s)) = 2 ^ 53 + 1\<close>.
\<close>

theorem progress_float_counterexample:
  "(\<exists>msg. progress (\<lambda>x. ''100.0'') 9007199254740991 9007199254740993 1 = Inr (Some msg)) \<and>
   \<not> (9007199254740991 + 1 = (1::int) \<or> 9007199254740991 + 1 = (9007199254740993::int) \<or>
      max 1 \<lceil>real_of_int 9007199254740993 / real_of_int 1\<rceil> dvd (9007199254740991 + 1))"
proof -
  have q: "true_div 9007199254740993 1 = Inr 9007199254740992"
    by (simp add: true_div_def round_quotient_def float_exponent_def bit_length.simps
        round_half_even_def Let_def)
  have x: "true_div 9007199254740992 9007199254740993 = Inr (9007199254740991 / 9007199254740992)"
    by (simp add: true_div_def round_quotient_def float_exponent_def bit_length.simps
        round_half_even_def Let_def)
  show ?thesis
    by (simp add: progress_def q x Let_def)
qed

text \<open>
  Claim C10, amended. For \<open>1 \<le> nb_batch < 2 ^ 53\<close>, \<open>0 \<le> batch_index < nb_batch\<close> and a
  nonzero \<open>s\<close>, \<open>progress\<close> returns (it does not raise); its result is the message
  \<open>'%5d / %d (%.1f%%)'\<close> of \<open>batch_index + 1\<close>, \<open>nb_batch\<close> and the percentage exactly
  when \<open>batch_index + 1\<close> is 1, is \<open>nb_batch\<close>, or is divisible by
  \<open>max(1, ceil(nb_batch / s))\<close>, the ceiling being that of the real quotient, and is
  \<open>None\<close> otherwise; the first and the last batch always give the message.
\<close>

theorem progress_amended:
  assumes "s \<noteq> 0" "1 \<le> nb_batch" "nb_batch < 2 ^ 53" "0 \<le> batch_index"
    "batch_index < nb_batch"
  shows "\<exists>x. true_div (batch_index + 1) nb_batch = Inr x \<and>
           progress pct batch_index nb_batch s =
             Inr (if batch_index + 1 = 1 \<or> batch_index + 1 = nb_batch \<or>
                     max 1 \<lceil>real_of_int nb_batch / real_of_int s\<rceil> dvd (batch_index + 1)
                  then Some (pad5 (string_of_int (batch_index + 1)) @ '' / '' @
                             string_of_int nb_batch @ '' ('' @ pct x @ ''%)'')
                  else None) \<and>
           (batch_index = 0 \<or> batch_index = nb_batch - 1 \<longrightarrow>
              progress pct batch_index nb_batch s =
                Inr (Some (pad5 (string_of_int (batch_index + 1)) @ '' / '' @
                           string_of_int nb_batch @ '' ('' @ pct x @ ''%)'')))"
proof -
  have npos: "0 < nb_batch" using assms(2) by simp
  from true_div_ceiling [OF npos assms(3) assms(1)] obtain q where
    q: "true_div nb_batch s = Inr q"
    and d: "max 1 \<lceil>q\<rceil> = max 1 \<lceil>real_of_int nb_batch / real_of_int s\<rceil>" by blast
  have "0 < batch_index + 1" "batch_index + 1 \<le> 1 * nb_batch" "(1::int) < 2 ^ 53"
    using assms(4,5) by simp_all
  from true_div_upper [OF this(1) npos this(2,3)] obtain x where
    x: "true_div (batch_index + 1) nb_batch = Inr x" by blast
  let ?d = "max 1 \<lceil>real_of_int nb_batch / real_of_int s\<rceil>"
  have m: "((batch_index + 1) mod ?d = 0) = (?d dvd (batch_index + 1))"
    by (simp add: dvd_eq_mod_eq_0)
  have p: "progress pct batch_index nb_batch s =
             Inr (if batch_index + 1 = 1 \<or> batch_index + 1 = nb_batch \<or>
                     ?d dvd (batch_index + 1)
                  then Some (pad5 (string_of_int (batch_index + 1)) @ '' / '' @
                             string_of_int nb_batch @ '' ('' @ pct x @ ''%)'')
                  else None)"
    unfolding progress_def q x Let_def d m sum.case by (simp only: if_distrib [of Inr] cong: if_cong)
  have fl: "batch_index = 0 \<or> batch_index = nb_batch - 1 \<Longrightarrow>
        batch_index + 1 = 1 \<or> batch_index + 1 = nb_batch \<or> ?d dvd (batch_index + 1)"
    by auto
  show ?thesis
  proof (intro exI [where x = x] conjI impI)
    show "true_div (batch_index + 1) nb_batch = Inr x" by (rule x)
    show "progress pct batch_index nb_batch s =
             Inr (if batch_index + 1 = 1 \<or> batch_index + 1 = nb_batch \<or>
                     ?d dvd (batch_index + 1)
                  then Some (pad5 (string_of_int (batch_index + 1)) @ '' / '' @
                             string_of_int nb_batch @ '' ('' @ pct x @ ''%)'')
                  else None)" by (rule p)
    assume "batch_index = 0 \<or> batch_index = nb_batch - 1"
    from fl [OF this] show "progress pct batch_index nb_batch s =
                Inr (Some (pad5 (string_of_int (batch_index + 1)) @ '' / '' @
                           string_of_int nb_batch @ '' ('' @ pct x @ ''%)''))"
      unfolding p by (simp only: if_True)
  qed
qed

theorem progress_amended_witness:
  "progress (\<lambda>x. ''5.0'') 4 100 20 = Inr (Some ''    5 / 100 (5.0%)'') \<and>
   progress (\<lambda>x. ''6.0'') 5 100 20 = Inr None"
proof -
  have "(4::nat) = Suc (Suc (Suc (Suc 0)))" by simp
  then have r: "replicate 4 CHR '' '' = ''    ''" by (simp only: replicate.simps)
  show ?thesis
    using progress_amended [of 20 100 4 "\<lambda>x. ''5.0''"]
      progress_amended [of 20 100 5 "\<lambda>x. ''6.0''"]
    by (simp add: pad5_def string_of_int_def digit_char_def r)
qed

section \<open>Properties of \<open>loss_from_ids\<close>\<close>

lemma map_of_default_losses:
  "map_of (default_losses ids acc) =
     (\<lambda>x. if x \<in> set ids then Some (if startswith_s x then ''mse'' else ''binary_crossentropy'')
          else map_of acc x)"
  by (induction ids arbitrary: acc) (auto simp: AList.update_conv' fun_eq_iff)

lemma keys_default_losses:
  "fst ` set (default_losses ids acc) = set ids \<union> fst ` set acc"
  by (induction ids arbitrary: acc) (simp_all add: AList.dom_update Un_left_commute)

lemma distinct_default_losses:
  "distinct (map fst acc) \<Longrightarrow> distinct (map fst (default_losses ids acc))"
  by (induction ids arbitrary: acc) (auto simp: AList.distinct_update)

lemma map_of_override_items:
  "map_of (override_items d loss) = map_of loss ++ map_of (rev d)"
  by (induction d arbitrary: loss)
    (auto simp: AList.update_conv' fun_eq_iff map_add_def split: option.splits)

lemma keys_override_items:
  "fst ` set (override_items d loss) = fst ` set loss \<union> fst ` set d"
proof (induction d arbitrary: loss)
  case Nil
  show ?case by simp
next
  case (Cons p d)
  obtain k v where p: "p = (k, v)" by (cases p)
  show ?case unfolding p by (simp add: Cons.IH AList.dom_update)
qed

lemma distinct_override_items:
  "distinct (map fst loss) \<Longrightarrow> distinct (map fst (override_items d loss))"
  by (induction d arbitrary: loss) (auto simp: AList.distinct_update)

lemma map_of_override_all:
  "map_of (override_all ks v loss) = (\<lambda>x. if x \<in> set ks then Some v else map_of loss x)"
  by (induction ks arbitrary: loss) (auto simp: AList.update_conv' fun_eq_iff)

lemma keys_override_all:
  "fst ` set (override_all ks v loss) = set ks \<union> fst ` set loss"
  by (induction ks arbitrary: loss) (simp_all add: AList.dom_update Un_left_commute)

lemma distinct_override_all:
  "distinct (map fst loss) \<Longrightarrow> distinct (map fst (override_all ks v loss))"
  by (induction ks arbitrary: loss) (auto simp: AList.distinct_update)

text \<open>
  Claim C9, as stated, fails: a dict \<open>spec\<close> that mentions a key outside \<open>ids\<close> adds that
  key, so the key set of the result is not the given ids. With ids \<open>['a']\<close> and spec
  \<open>{'b': 'mse'}\<close> the result has the keys \<open>a\<close> and \<open>b\<close>.
\<close>

theorem loss_from_ids_keys_counterexample:
  "fst ` set (loss_from_ids [''a''] (Some (SpecDict [(''b'', ''mse'')]))) \<noteq> set [''a'']"
  by (simp add: loss_from_ids_def Let_def startswith_s_def)

text \<open>
  Claim C9, amended. \<open>loss_from_ids\<close> returns a dict (distinct keys) whose key set is the
  given ids together with the keys of a dict \<open>spec\<close>: exactly the ids when \<open>spec\<close> is
  \<open>None\<close> or not a dict. Without a spec an id starting with \<open>s\<close> has loss \<open>mse\<close> and every
  other id \<open>binary_crossentropy\<close>. A dict spec overrides the keys it mentions and leaves the
  other ids at their defaults (a key repeated in the item list takes its last value; a Python
  dict has none). A spec that is not a dict is the loss of every id.
\<close>

theorem loss_from_ids_amended:
  "distinct (map fst (loss_from_ids ids spec)) \<and>
   fst ` set (loss_from_ids ids spec) =
     set ids \<union> (case spec of Some (SpecDict d) \<Rightarrow> fst ` set d | _ \<Rightarrow> {}) \<and>
   map_of (loss_from_ids ids None) =
     (\<lambda>x. if x \<in> set ids then Some (if startswith_s x then ''mse'' else ''binary_crossentropy'')
          else None) \<and>
   map_of (loss_from_ids ids (Some (SpecDict d))) =
     map_of (loss_from_ids ids None) ++ map_of (rev d) \<and>
   map_of (loss_from_ids ids (Some (SpecValue v))) =
     (\<lambda>x. if x \<in> set ids then Some v else None)"
proof -
  have dis: "distinct (map fst (loss_from_ids ids spec))"
    by (auto simp: loss_from_ids_def Let_def distinct_default_losses distinct_override_items
          distinct_override_all split: option.splits loss_spec.splits)
  have keys: "fst ` set (loss_from_ids ids spec) =
      set ids \<union> (case spec of Some (SpecDict d) \<Rightarrow> fst ` set d | _ \<Rightarrow> {})"
    by (simp add: loss_from_ids_def Let_def keys_default_losses keys_override_items
          keys_override_all split: option.splits loss_spec.splits)
  have none: "map_of (loss_from_ids ids None) =
      (\<lambda>x. if x \<in> set ids then Some (if startswith_s x then ''mse'' else ''binary_crossentropy'')
           else None)"
    by (simp add: loss_from_ids_def Let_def map_of_default_losses fun_eq_iff)
  have dict: "map_of (loss_from_ids ids (Some (SpecDict d))) =
      map_of (loss_from_ids ids None) ++ map_of (rev d)"
    by (simp add: loss_from_ids_def Let_def map_of_override_items)
  have val: "map_of (loss_from_ids ids (Some (SpecValue v))) =
      (\<lambda>x. if x \<in> set ids then Some v else None)"
    by (auto simp: loss_from_ids_def Let_def map_of_override_all map_of_default_losses
          keys_default_losses fun_eq_iff)
  from dis keys none dict val show ?thesis by blast
qed

section \<open>Properties of \<open>adjust_batch_size\<close>\<close>

lemma try_configs_result:
  "map_option ((!) configs) (snd (try_configs tob data sw n is logs)) =
     find (\<lambda>c. tob (slice_batch (fst c) data) (slice_batch (fst c) sw))
       (filter (\<lambda>c. fst c \<le> n) (map ((!) configs) is))"
  by (induction "is" arbitrary: logs) (auto simp: Let_def)

lemma try_configs_log:
  "fst (try_configs tob data sw n is logs) =
     logs @
     concat (map (\<lambda>c. [Info (''Try batch size '' @ string_of_nat (fst c)),
                        Info (''Batch size '' @ string_of_nat (fst c) @ '' failed!'')])
               (takeWhile (\<lambda>c. \<not> tob (slice_batch (fst c) data) (slice_batch (fst c) sw))
                  (filter (\<lambda>c. fst c \<le> n) (map ((!) configs) is)))) @
     (case find (\<lambda>c. tob (slice_batch (fst c) data) (slice_batch (fst c) sw))
             (filter (\<lambda>c. fst c \<le> n) (map ((!) configs) is)) of
        None \<Rightarrow> []
      | Some c \<Rightarrow> [Info (''Try batch size '' @ string_of_nat (fst c))])"
  by (induction "is" arbitrary: logs) (auto simp: Let_def)

lemma configs_descending: "sorted_wrt (>) (map fst configs)"
  by (simp add: configs_def)

lemma adjust_batch_size_closed:
  assumes data: "data = (k0, v0) # rest"
    and ok: "ok = (\<lambda>c. train_on_batch (slice_batch (fst c) data) (slice_batch (fst c) sample_weights))"
    and cands: "cands = filter (\<lambda>c. fst c \<le> length v0) configs"
  shows "adjust_batch_size train_on_batch data sample_weights =
           Inr (concat (map (\<lambda>c. [Info (''Try batch size '' @ string_of_nat (fst c)),
                                   Info (''Batch size '' @ string_of_nat (fst c) @ '' failed!'')])
                          (takeWhile (\<lambda>c. \<not> ok c) cands)) @
                (case find ok cands of
                   None \<Rightarrow> []
                 | Some c \<Rightarrow> [Info (''Try batch size '' @ string_of_nat (fst c))]),
                find ok cands)"
proof -
  let ?r = "try_configs train_on_batch data sample_weights (length v0) [0..<length configs] []"
  have m: "map ((!) configs) [0..<length configs] = configs"
    by (rule map_nth)
  have r: "map_option ((!) configs) (snd ?r) = find ok cands"
    unfolding ok cands using try_configs_result [of train_on_batch data sample_weights "length v0" "[0..<length configs]" "[]"]
    by (simp only: m)
  have l: "fst ?r = concat (map (\<lambda>c. [Info (''Try batch size '' @ string_of_nat (fst c)),
                                   Info (''Batch size '' @ string_of_nat (fst c) @ '' failed!'')])
                          (takeWhile (\<lambda>c. \<not> ok c) cands)) @
                (case find ok cands of
                   None \<Rightarrow> []
                 | Some c \<Rightarrow> [Info (''Try batch size '' @ string_of_nat (fst c))])"
    unfolding ok cands using try_configs_log [of train_on_batch data sample_weights "length v0" "[0..<length configs]" "[]"]
    by (simp only: m append_Nil)
  have "adjust_batch_size train_on_batch data sample_weights =
          Inr (fst ?r, map_option ((!) configs) (snd ?r))"
    unfolding adjust_batch_size_def data
    by (simp add: Let_def case_prod_beta split: option.splits)
  then show ?thesis by (simp only: r l)
qed


text \<open>
  Claim C5. The candidate configurations are in strictly descending order of batch size.
  With \<open>nb_sample\<close> the length of the first data set, \<open>adjust_batch_size\<close> attempts, in
  that order, the candidates whose batch size does not exceed \<open>nb_sample\<close>, logging each
  attempt and each failure, and returns the first of them on which \<open>train_on_batch\<close> does
  not raise; it returns \<open>None\<close> exactly when every candidate that is not skipped raises
  (in particular when all are skipped). When \<open>main\<close> reaches the adjustment (no batch size
  given, and automatic sizing asked for or no model parameters) and the result is \<open>None\<close>,
  it logs the error and returns the exit code 1.
\<close>

theorem adjust_batch_size_first_fit:
  assumes data: "data = (k0, v0) # rest"
    and ok: "ok = (\<lambda>c. train_on_batch (slice_batch (fst c) data) (slice_batch (fst c) sample_weights))"
    and cands: "cands = filter (\<lambda>c. fst c \<le> length v0) configs"
    and no_size: "opts_batch_size = None \<or> opts_batch_size = Some 0"
    and auto: "opts_batch_size_auto \<or> model_params_batch_size = None"
  shows "sorted_wrt (>) (map fst configs) \<and>
         adjust_batch_size train_on_batch data sample_weights =
           Inr (concat (map (\<lambda>c. [Info (''Try batch size '' @ string_of_nat (fst c)),
                                   Info (''Batch size '' @ string_of_nat (fst c) @ '' failed!'')])
                          (takeWhile (\<lambda>c. \<not> ok c) cands)) @
                (case find ok cands of
                   None \<Rightarrow> []
                 | Some c \<Rightarrow> [Info (''Try batch size '' @ string_of_nat (fst c))]),
                find ok cands) \<and>
         (find ok cands = None \<longleftrightarrow> (\<forall>c \<in> set configs. fst c \<le> length v0 \<longrightarrow> \<not> ok c)) \<and>
         (find ok cands = None \<longrightarrow>
            (\<exists>logs. define_batch_size train_on_batch opts_batch_size opts_batch_size_auto
                      model_params_batch_size data sample_weights =
                    Inr (logs @ [Error ''GPU memory to small''], Return 1)))"
proof -
  note closed = adjust_batch_size_closed [OF data ok cands]
  have none: "find ok cands = None \<longleftrightarrow> (\<forall>c \<in> set configs. fst c \<le> length v0 \<longrightarrow> \<not> ok c)"
    unfolding cands by (auto simp: find_None_iff)
  have main: "\<exists>logs. define_batch_size train_on_batch opts_batch_size opts_batch_size_auto
                      model_params_batch_size data sample_weights =
                    Inr (logs @ [Error ''GPU memory to small''], Return 1)"
    if "find ok cands = None"
  proof -
    from closed that obtain logs where
      "adjust_batch_size train_on_batch data sample_weights = Inr (logs, None)"
      by simp
    with no_size auto have "define_batch_size train_on_batch opts_batch_size opts_batch_size_auto
        model_params_batch_size data sample_weights =
        Inr ((Info ''Adjust batch size'' # logs) @ [Error ''GPU memory to small''], Return 1)"
      by (auto simp: define_batch_size_def)
    then show ?thesis by blast
  qed
  from configs_descending closed none main show ?thesis by blast
qed

theorem adjust_batch_size_first_fit_witness:
  "adjust_batch_size (\<lambda>d w. False) [(''c_x'', replicate 40 (0::nat))]
       [(''u0_y'', replicate 40 (1::nat))] =
     Inr ([Info ''Try batch size 32'', Info ''Batch size 32 failed!'',
           Info ''Try batch size 16'', Info ''Batch size 16 failed!''], None) \<and>
   (\<exists>logs. define_batch_size (\<lambda>d w. False) None True (Some 128)
              [(''c_x'', replicate 40 (0::nat))] [(''u0_y'', replicate 40 (1::nat))] =
            Inr (logs @ [Error ''GPU memory to small''], Return 1))"
  using adjust_batch_size_first_fit [OF refl refl refl, of None True "Some 128" "\<lambda>d w. False"
      "''c_x''" "replicate 40 (0::nat)" "[]" "[(''u0_y'', replicate 40 (1::nat))]"]
  by (simp add: configs_def digit_char_def)

section \<open>Properties of loading and saving models\<close>

text \<open>
  Claim C6, as stated, fails in two places. For the empty list, which is one of the lengths
  other than 2, \<open>fnames[0]\<close> does not exist and \<open>model_from_list\<close> raises \<open>IndexError\<close>
  before it opens any file. And \<open>model_to_json\<close> called without a weights file, as
  \<open>main\<close> calls it, writes the JSON architecture only.
\<close>

theorem model_from_list_counterexample:
  "model_from_list toy_library Map.empty [] False = ([], Inl IndexError) \<and>
   fst (model_to_json toy_library (''{}'', ''w'') ''model.json'' None Map.empty) =
     [OpenWrite ''model.json''] \<and>
   dom (snd (model_to_json toy_library (''{}'', ''w'') ''model.json'' None Map.empty)) =
     {''model.json''}"
  by (simp add: model_from_list_def model_to_json_def toy_library_def)

text \<open>
  Claim C6, amended. \<open>model_from_list\<close> loads from the pair of JSON architecture
  \<open>fnames[0]\<close> and weights file \<open>fnames[1]\<close> if and only if the list has length exactly
  2 (it then opens \<open>fnames[0]\<close> as text); for every other length but 0 it loads the
  pickled blob \<open>fnames[0]\<close> (it opens that single file as binary); for the empty list it
  raises \<open>IndexError\<close>. Dually, \<open>model_to_json\<close> writes the architecture as JSON and,
  when a weights file is given, the weights to that separate file, while
  \<open>model_to_pickle\<close> writes one serialised blob. Where the library's readers invert its
  writers, loading the list of the files just written gives the model back.
\<close>

theorem model_from_list_amended:
  "(length fnames = 2 \<longrightarrow>
      model_from_list lib files fnames c =
        model_from_json lib files (fnames ! 0) (Some (fnames ! 1)) c) \<and>
   (length fnames \<noteq> 2 \<longrightarrow> fnames \<noteq> [] \<longrightarrow>
      model_from_list lib files fnames c = model_from_pickle lib files (fnames ! 0)) \<and>
   model_from_list lib files [] c = ([], Inl IndexError) \<and>
   ((\<exists>ops. fst (model_from_list lib files fnames c) = OpenRead (fnames ! 0) # ops) \<longleftrightarrow>
      length fnames = 2) \<and>
   (fst (model_from_list lib files fnames c) = [OpenReadBinary (fnames ! 0)] \<longleftrightarrow>
      length fnames \<noteq> 2 \<and> fnames \<noteq> []) \<and>
   model_to_json lib m j (Some w) files =
     ([OpenWrite j, SaveWeights w], k_save_weights lib m w (files(j \<mapsto> k_to_json lib m))) \<and>
   model_to_json lib m j None files = ([OpenWrite j], files(j \<mapsto> k_to_json lib m)) \<and>
   model_to_pickle lib m p files = ([OpenWriteBinary p], files(p \<mapsto> pickle_dump lib m)) \<and>
   (pickle_load lib (pickle_dump lib m) = Inr m \<longrightarrow>
      snd (model_from_list lib (snd (model_to_pickle lib m p files)) [p] c) = Inr m) \<and>
   (k_model_from_json lib (k_to_json lib m) c = Inr m0 \<longrightarrow>
    k_save_weights lib m w (files(j \<mapsto> k_to_json lib m)) j = Some (k_to_json lib m) \<longrightarrow>
    k_load_weights lib m0 (Some w) (snd (model_to_json lib m j (Some w) files)) = Inr m \<longrightarrow>
      snd (model_from_list lib (snd (model_to_json lib m j (Some w) files)) [j, w] c) = Inr m)"
proof -
  have two: "length fnames = 2 \<longrightarrow>
      model_from_list lib files fnames c =
        model_from_json lib files (fnames ! 0) (Some (fnames ! 1)) c"
    by (simp add: model_from_list_def)
  have other: "length fnames \<noteq> 2 \<longrightarrow> fnames \<noteq> [] \<longrightarrow>
      model_from_list lib files fnames c = model_from_pickle lib files (fnames ! 0)"
    by (cases fnames) (simp_all add: model_from_list_def)
  have empty: "model_from_list lib files [] c = ([], Inl IndexError)"
    by (simp add: model_from_list_def)
  have json_trace: "\<exists>ops. fst (model_from_json lib files a b c) = OpenRead a # ops" for a b
    by (simp add: model_from_json_def split: option.splits sum.splits)
  have pickle_trace: "fst (model_from_pickle lib files a) = [OpenReadBinary a]" for a
    by (simp add: model_from_pickle_def split: option.splits)
  have text_iff: "(\<exists>ops. fst (model_from_list lib files fnames c) = OpenRead (fnames ! 0) # ops) \<longleftrightarrow>
      length fnames = 2"
  proof (cases "length fnames = 2")
    case True
    with two json_trace show ?thesis by simp
  next
    case False
    show ?thesis
    proof (cases fnames)
      case Nil
      with False empty show ?thesis by simp
    next
      case (Cons f0 fs)
      with False other pickle_trace [of "fnames ! 0"] show ?thesis by simp
    qed
  qed
  have binary_iff: "fst (model_from_list lib files fnames c) = [OpenReadBinary (fnames ! 0)] \<longleftrightarrow>
      length fnames \<noteq> 2 \<and> fnames \<noteq> []"
  proof (cases "length fnames = 2")
    case True
    with two json_trace [of "fnames ! 0" "Some (fnames ! 1)"] show ?thesis by auto
  next
    case False
    show ?thesis
    proof (cases fnames)
      case Nil
      with empty show ?thesis by simp
    next
      case (Cons f0 fs)
      with False other pickle_trace [of "fnames ! 0"] show ?thesis by simp
    qed
  qed
  have to_json: "model_to_json lib m j (Some w) files =
     ([OpenWrite j, SaveWeights w], k_save_weights lib m w (files(j \<mapsto> k_to_json lib m)))"
    by (simp add: model_to_json_def)
  have to_json_only: "model_to_json lib m j None files = ([OpenWrite j], files(j \<mapsto> k_to_json lib m))"
    by (simp add: model_to_json_def)
  have to_pickle: "model_to_pickle lib m p files = ([OpenWriteBinary p], files(p \<mapsto> pickle_dump lib m))"
    by (simp add: model_to_pickle_def)
  have pickle_round: "pickle_load lib (pickle_dump lib m) = Inr m \<longrightarrow>
      snd (model_from_list lib (snd (model_to_pickle lib m p files)) [p] c) = Inr m"
    by (simp add: model_from_list_def model_from_pickle_def model_to_pickle_def)
  have json_round: "k_model_from_json lib (k_to_json lib m) c = Inr m0 \<longrightarrow>
    k_save_weights lib m w (files(j \<mapsto> k_to_json lib m)) j = Some (k_to_json lib m) \<longrightarrow>
    k_load_weights lib m0 (Some w) (snd (model_to_json lib m j (Some w) files)) = Inr m \<longrightarrow>
      snd (model_from_list lib (snd (model_to_json lib m j (Some w) files)) [j, w] c) = Inr m"
    by (simp add: model_from_list_def model_from_json_def model_to_json_def)
  from two other empty text_iff binary_iff to_json to_json_only to_pickle pickle_round json_round
  show ?thesis by blast
qed

theorem model_from_list_amended_witness:
  "snd (model_from_list toy_library
          (snd (model_to_json toy_library (''{}'', ''w1'') ''model.json''
                  (Some ''model_weights.h5'') Map.empty))
          [''model.json'', ''model_weights.h5''] False) = Inr (''{}'', ''w1'') \<and>
   snd (model_from_list toy_library
          (snd (model_to_pickle toy_library (''{}'', ''w1'') ''model.pkl'' Map.empty))
          [''model.pkl''] False) = Inr (''{}'', ''w1'') \<and>
   model_from_list toy_library Map.empty [''a.json'', ''a.h5''] False =
     model_from_json toy_library Map.empty ''a.json'' (Some ''a.h5'') False \<and>
   model_from_list toy_library Map.empty [''a'', ''b'', ''c''] False =
     model_from_pickle toy_library Map.empty ''a''"
  using model_from_list_amended [where fnames = "[''a.json'', ''a.h5'']" and lib = toy_library
      and files = Map.empty and c = False and m = "(''{}'', ''w1'')" and j = "''model.json''"
      and w = "''model_weights.h5''" and p = "''model.pkl''" and ?m0.0 = "(''{}'', [])"]
    model_from_list_amended [where fnames = "[''a'', ''b'', ''c'']" and lib = toy_library
      and files = Map.empty and c = False]
  by (simp add: toy_library_def model_to_json_def)

section \<open>Properties of \<open>copy_weights\<close>\<close>

lemma keys_update_present:
  "k \<in> fst ` set dst \<Longrightarrow> fst ` set (AList.update k v dst) = fst ` set dst"
  by (simp add: AList.dom_update insert_absorb)

lemma copy_weights_loop_copied:
  "snd (copy_weights_loop fr rs items dst copied) =
     copied @ filter (\<lambda>k. fr k rs \<noteq> [] \<and> k \<in> fst ` set dst) (map fst items)"
proof (induction items arbitrary: dst copied)
  case Nil
  show ?case by simp
next
  case (Cons p items)
  obtain k v where p: "p = (k, v)" by (cases p)
  show ?case
  proof (cases "fr k rs \<noteq> [] \<and> k \<in> fst ` set dst")
    case True
    then have "fst ` set (AList.update k v dst) = fst ` set dst"
      by (simp add: keys_update_present)
    with True show ?thesis unfolding p by (simp add: Cons.IH)
  next
    case False
    show ?thesis unfolding p by (simp add: False Cons.IH)
  qed
qed

lemma copy_weights_loop_keys:
  "map fst (fst (copy_weights_loop fr rs items dst copied)) = map fst dst"
proof (induction items arbitrary: dst copied)
  case Nil
  show ?case by simp
next
  case (Cons p items)
  obtain k v where p: "p = (k, v)" by (cases p)
  have "k \<in> fst ` set dst \<Longrightarrow> map fst (AList.update k v dst) = map fst dst"
    by (simp add: AList.update_keys)
  with Cons.IH show ?case unfolding p by simp
qed

lemma copy_weights_loop_lookup:
  "distinct (map fst items) \<Longrightarrow>
   map_of (fst (copy_weights_loop fr rs items dst copied)) k =
     (if fr k rs \<noteq> [] \<and> k \<in> fst ` set dst \<and> k \<in> fst ` set items
      then map_of items k else map_of dst k)"
proof (induction items arbitrary: dst copied)
  case Nil
  show ?case by simp
next
  case (Cons p items)
  obtain k' v where p: "p = (k', v)" by (cases p)
  from Cons.prems have d: "distinct (map fst items)" and n: "k' \<notin> fst ` set items"
    unfolding p by auto
  note IH = Cons.IH [OF d]
  show ?case
  proof (cases "fr k' rs \<noteq> [] \<and> k' \<in> fst ` set dst")
    case True
    then have keys: "fst ` set (AList.update k' v dst) = fst ` set dst"
      by (simp add: keys_update_present)
    have "map_of (fst (copy_weights_loop fr rs (p # items) dst copied)) k =
        (if fr k rs \<noteq> [] \<and> k \<in> fst ` set dst \<and> k \<in> fst ` set items
         then map_of items k else map_of (AList.update k' v dst) k)"
      unfolding p using True by (simp add: IH keys)
    also have "\<dots> = (if fr k rs \<noteq> [] \<and> k \<in> fst ` set dst \<and> k \<in> fst ` set (p # items)
         then map_of (p # items) k else map_of dst k)"
      unfolding p using True n by (auto simp: AList.update_conv')
    finally show ?thesis .
  next
    case False
    have "map_of (fst (copy_weights_loop fr rs (p # items) dst copied)) k =
        (if fr k rs \<noteq> [] \<and> k \<in> fst ` set dst \<and> k \<in> fst ` set items
         then map_of items k else map_of dst k)"
      unfolding p by (simp add: False IH)
    also have "\<dots> = (if fr k rs \<noteq> [] \<and> k \<in> fst ` set dst \<and> k \<in> fst ` set (p # items)
         then map_of (p # items) k else map_of dst k)"
      unfolding p using False n by auto
    finally show ?thesis .
  qed
qed

text \<open>
  Claim C4. The names returned are exactly the node names of \<open>src\<close>, in its order, that
  match (the result of \<open>filter_regex\<close> on the name and the regexes is not empty) and are
  also node names of \<open>dst\<close>; each of these nodes of \<open>dst\<close> ends with the weights of the
  node of \<open>src\<close> of the same name; every node of \<open>dst\<close> whose name is not returned keeps
  its weights; and \<open>dst\<close> has the same nodes as before, in the same order. The node names
  of \<open>src\<close>, being the keys of a dict, are distinct.
\<close>

theorem copy_weights_exact:
  assumes "distinct (map fst src)"
    and "copy_weights filter_regex src dst regexs = (dst', copied)"
  shows "copied = filter (\<lambda>k. filter_regex k regexs \<noteq> [] \<and> k \<in> fst ` set dst) (map fst src) \<and>
         set copied = {k \<in> fst ` set src. filter_regex k regexs \<noteq> [] \<and> k \<in> fst ` set dst} \<and>
         (\<forall>k \<in> set copied. map_of dst' k = map_of src k) \<and>
         (\<forall>k. k \<notin> set copied \<longrightarrow> map_of dst' k = map_of dst k) \<and>
         map fst dst' = map fst dst"
proof -
  from assms(2) have dst': "dst' = fst (copy_weights_loop filter_regex regexs src dst [])"
    and copied: "copied = snd (copy_weights_loop filter_regex regexs src dst [])"
    by (simp_all add: copy_weights_def)
  have c: "copied = filter (\<lambda>k. filter_regex k regexs \<noteq> [] \<and> k \<in> fst ` set dst) (map fst src)"
    unfolding copied by (simp add: copy_weights_loop_copied)
  have s: "set copied = {k \<in> fst ` set src. filter_regex k regexs \<noteq> [] \<and> k \<in> fst ` set dst}"
    unfolding c by auto
  have l: "map_of dst' k =
      (if filter_regex k regexs \<noteq> [] \<and> k \<in> fst ` set dst \<and> k \<in> fst ` set src
       then map_of src k else map_of dst k)" for k
    unfolding dst' by (rule copy_weights_loop_lookup [OF assms(1)])
  have in_copied: "\<forall>k \<in> set copied. map_of dst' k = map_of src k"
    using l s by auto
  have frame: "\<forall>k. k \<notin> set copied \<longrightarrow> map_of dst' k = map_of dst k"
    using l s by auto
  have keys: "map fst dst' = map fst dst"
    unfolding dst' by (rule copy_weights_loop_keys)
  from c s in_copied frame keys show ?thesis by blast
qed

theorem copy_weights_exact_witness:
  "copy_weights (\<lambda>k rs. if k \<in> set rs then [k] else [])
     [(''c_c1'', [1::int, 2]), (''c_h1'', [3]), (''s_c1'', [4])]
     [(''c_c1'', [0]), (''s_c1'', [0]), (''u0_o'', [9])] [''c_c1'', ''c_h1''] =
     ([(''c_c1'', [1, 2]), (''s_c1'', [0]), (''u0_o'', [9])], [''c_c1'']) \<and>
   map_of [(''c_c1'', [1::int, 2]), (''s_c1'', [0]), (''u0_o'', [9])] ''u0_o'' = Some [9]"
  using copy_weights_exact [where src = "[(''c_c1'', [1::int, 2]), (''c_h1'', [3]), (''s_c1'', [4])]"
      and dst = "[(''c_c1'', [0]), (''s_c1'', [0]), (''u0_o'', [9])]"
      and regexs = "[''c_c1'', ''c_h1'']" and filter_regex = "\<lambda>k rs. if k \<in> set rs then [k] else []"
      and dst' = "[(''c_c1'', [1, 2]), (''s_c1'', [0]), (''u0_o'', [9])]" and copied = "[''c_c1'']"]
  by (simp add: copy_weights_def)

section \<open>Properties of \<open>eval_io\<close>\<close>













section \<open>Properties of the sample weights\<close>

lemma get_sample_weights_default:
  assumes "length (entries y) = prod_list (shape y)"
  shows "get_sample_weights MASK np_mean f16 y False =
           \<lparr>shape = shape y, entries = map (\<lambda>v. if v = MASK then f16 0 else 1) (entries y)\<rparr>"
proof -
  have "zip (entries y) (replicate (prod_list (shape y)) (1::rat)) =
      map (\<lambda>v. (v, 1)) (entries y)"
    unfolding assms [symmetric] by (simp add: zip_replicate2)
  then show ?thesis
    by (simp add: get_sample_weights_def np_ones_def assign_where_equal_def comp_def)
qed

lemma masked_entries_zero:
  "list_all (\<lambda>x. x = 0)
     (map snd (filter fst (zip (map (\<lambda>v. v = MASK) xs)
                               (map (\<lambda>v. if v = MASK then 0 else (1::rat)) xs))))"
  by (induction xs) auto

lemma unmasked_entries_one:
  "list_all (\<lambda>x. x = 1)
     (map snd (filter (\<lambda>p. \<not> fst p) (zip (map (\<lambda>v. v = MASK) xs)
                               (map (\<lambda>v. if v = MASK then 0 else (1::rat)) xs))))"
  by (induction xs) auto

lemma sample_weights_of_lookup:
  "\<forall>k \<in> set ks. map_of data k \<noteq> None \<Longrightarrow>
   \<exists>ws. sample_weights_of MASK np_mean f16 data ks acc = Inr ws \<and>
        (\<forall>k. map_of ws k =
           (if k \<in> set ks
            then Some (get_sample_weights MASK np_mean f16 (the (map_of data k)) False)
            else map_of acc k))"
proof (induction ks arbitrary: acc)
  case Nil
  show ?case by simp
next
  case (Cons k ks)
  from Cons.prems obtain yk where yk: "map_of data k = Some yk" by auto
  from Cons.prems have "\<forall>k \<in> set ks. map_of data k \<noteq> None" by simp
  from Cons.IH [OF this, of "AList.update k (get_sample_weights MASK np_mean f16 yk False) acc"]
  obtain ws where ws: "sample_weights_of MASK np_mean f16 data ks
        (AList.update k (get_sample_weights MASK np_mean f16 yk False) acc) = Inr ws"
    and look: "\<And>k'. map_of ws k' =
           (if k' \<in> set ks
            then Some (get_sample_weights MASK np_mean f16 (the (map_of data k')) False)
            else map_of (AList.update k (get_sample_weights MASK np_mean f16 yk False) acc) k')"
    by blast
  have "sample_weights_of MASK np_mean f16 data (k # ks) acc = Inr ws"
    by (simp add: yk ws)
  moreover have "map_of ws k' =
           (if k' \<in> set (k # ks)
            then Some (get_sample_weights MASK np_mean f16 (the (map_of data k')) False)
            else map_of acc k')" for k'
    by (simp add: look AList.update_conv' yk)
  ultimately show ?case by blast
qed

lemma check_weights_ok:
  assumes "f16 0 = 0"
  shows "\<forall>k \<in> set outs. \<exists>yo. map_of y k = Some yo \<and> length (entries yo) = prod_list (shape yo) \<and>
            map_of weights k = Some (get_sample_weights MASK np_mean f16 yo False) \<Longrightarrow>
         check_weights MASK outs y weights = Inr ()"
proof (induction outs)
  case Nil
  show ?case by simp
next
  case (Cons k outs)
  from Cons.prems obtain yo where yo: "map_of y k = Some yo"
    and wf: "length (entries yo) = prod_list (shape yo)"
    and w: "map_of weights k = Some (get_sample_weights MASK np_mean f16 yo False)"
    by auto
  from Cons.prems have rest: "check_weights MASK outs y weights = Inr ()"
    by (intro Cons.IH) simp
  show ?case
  proof -
    have d: "get_sample_weights MASK np_mean f16 yo False =
        \<lparr>shape = shape yo, entries = map (\<lambda>v. if v = MASK then 0 else 1) (entries yo)\<rparr>"
      by (simp add: get_sample_weights_default [OF wf] assms cong: if_cong)
    show ?thesis
      by (simp add: yo w d Let_def masked_entries_zero unmasked_entries_one rest)
  qed
qed

text \<open>
  Claim C3. For a well-formed label array \<open>y\<close>, \<open>get_sample_weights(y)\<close> with the default
  \<open>weight_classes=False\<close> has the shape of \<open>y\<close>, the weight 0 wherever the label equals
  \<open>io.MASK\<close> and the weight 1 everywhere else (0 is stored exactly in the \<open>float16\<close>
  array). Consequently, when the data hold a well-formed label array for every model
  output, the assertions of \<open>check_weights\<close> hold for the weights that \<open>read_data\<close>
  computes, and \<open>read_data\<close> returns the data with these weights.
\<close>

theorem sample_weights_mask:
  assumes f0: "f16 0 = 0"
    and wf: "length (entries y) = prod_list (shape y)"
    and dwf: "\<forall>k \<in> set out_order.
                \<exists>a. map_of data k = Some a \<and> length (entries a) = prod_list (shape a)"
  shows "shape (get_sample_weights MASK np_mean f16 y False) = shape y \<and>
         length (entries (get_sample_weights MASK np_mean f16 y False)) = length (entries y) \<and>
         (\<forall>i < length (entries y).
            entries (get_sample_weights MASK np_mean f16 y False) ! i =
              (if entries y ! i = MASK then 0 else 1)) \<and>
         (\<exists>weights.
            read_data MASK np_mean f16 data out_order = Inr (data, weights) \<and>
            check_weights MASK out_order data weights = Inr () \<and>
            (\<forall>k \<in> set out_order.
               map_of weights k =
                 Some (get_sample_weights MASK np_mean f16 (the (map_of data k)) False)))"
proof -
  note d = get_sample_weights_default [OF wf, of MASK np_mean f16]
  have s: "shape (get_sample_weights MASK np_mean f16 y False) = shape y"
    by (simp add: d)
  have l: "length (entries (get_sample_weights MASK np_mean f16 y False)) = length (entries y)"
    by (simp add: d)
  have e: "\<forall>i < length (entries y).
            entries (get_sample_weights MASK np_mean f16 y False) ! i =
              (if entries y ! i = MASK then 0 else 1)"
    by (simp add: d f0)
  from dwf have "\<forall>k \<in> set out_order. map_of data k \<noteq> None" by auto
  from sample_weights_of_lookup [OF this, of MASK np_mean f16 "[]"]
  obtain weights where ws: "sample_weights_of MASK np_mean f16 data out_order [] = Inr weights"
    and look: "\<And>k. k \<in> set out_order \<Longrightarrow> map_of weights k =
        Some (get_sample_weights MASK np_mean f16 (the (map_of data k)) False)"
    by auto
  have "\<forall>k \<in> set out_order. \<exists>yo. map_of data k = Some yo \<and>
          length (entries yo) = prod_list (shape yo) \<and>
          map_of weights k = Some (get_sample_weights MASK np_mean f16 yo False)"
  proof
    fix k
    assume k: "k \<in> set out_order"
    with dwf obtain a where a: "map_of data k = Some a"
      "length (entries a) = prod_list (shape a)" by blast
    with look [OF k] show "\<exists>yo. map_of data k = Some yo \<and>
          length (entries yo) = prod_list (shape yo) \<and>
          map_of weights k = Some (get_sample_weights MASK np_mean f16 yo False)"
      by simp
  qed
  then have c: "check_weights MASK out_order data weights = Inr ()"
    by (rule check_weights_ok [where ?f16.0 = f16, OF f0])
  have r: "read_data MASK np_mean f16 data out_order = Inr (data, weights)"
    by (simp add: read_data_def ws to_view_def c)
  from s l e r c look show ?thesis by blast
qed

theorem sample_weights_mask_witness:
  "get_sample_weights (- 1) (\<lambda>xs. 0) (\<lambda>v. v) \<lparr>shape = [2, 2], entries = [0, - 1, 1, - 1]\<rparr> False =
     \<lparr>shape = [2, 2], entries = [1, 0, 1, 0]\<rparr> \<and>
   read_data (- 1) (\<lambda>xs. 0) (\<lambda>v. v)
     [(''c_x'', \<lparr>shape = [1], entries = [5]\<rparr>), (''u0_y'', \<lparr>shape = [3], entries = [1, - 1, 0]\<rparr>)]
     [''u0_y''] =
     Inr ([(''c_x'', \<lparr>shape = [1], entries = [5]\<rparr>),
           (''u0_y'', \<lparr>shape = [3], entries = [1, - 1, 0]\<rparr>)],
          [(''u0_y'', \<lparr>shape = [3], entries = [1, 0, 1]\<rparr>)])"
proof -
  let ?y = "\<lparr>shape = [2, 2], entries = [0, - 1, 1, - 1]\<rparr>"
  let ?data = "[(''c_x'', \<lparr>shape = [1], entries = [5]\<rparr>),
                (''u0_y'', \<lparr>shape = [3], entries = [1, - 1, 0]\<rparr>)]"
  have w1: "get_sample_weights (- 1) (\<lambda>xs. 0) (\<lambda>v. v) ?y False =
      \<lparr>shape = [2, 2], entries = [1, 0, 1, 0]\<rparr>"
    by (simp add: get_sample_weights_default)
  have w2: "get_sample_weights (- 1) (\<lambda>xs. 0) (\<lambda>v. v) \<lparr>shape = [3], entries = [1, - 1, 0]\<rparr> False =
      \<lparr>shape = [3], entries = [1, 0, 1]\<rparr>"
    by (simp add: get_sample_weights_default)
  from sample_weights_mask [where ?f16.0 = "\<lambda>v. v" and y = ?y
      and out_order = "[''u0_y'']" and MASK = "- 1" and np_mean = "\<lambda>xs. 0" and data = ?data]
  obtain weights where
    r: "read_data (- 1) (\<lambda>xs. 0) (\<lambda>v. v) ?data [''u0_y''] = Inr (?data, weights)"
    by auto
  then have "weights = [(''u0_y'', \<lparr>shape = [3], entries = [1, 0, 1]\<rparr>)]"
    by (simp add: read_data_def w2 to_view_def split: sum.splits)
  with r w1 show ?thesis by simp
qed

section \<open>Properties of the branch layers\<close>

lemma seq_conv_loop_blocks:
  "\<forall>l \<in> set ls. l < length (nb_filter p) \<and> l < length (filter_len p) \<and> l < length (pool_len p) \<Longrightarrow>
   seq_conv_loop p w ls layers =
     Inr (layers @
          concat (map (\<lambda>l. [(''c'' @ string_of_nat (l + 1),
                              Convolution1D (nb_filter p ! l) (filter_len p ! l) (activation p)
                                ''glorot_uniform'' w ''same''),
                             (''p'' @ string_of_nat (l + 1), MaxPooling1D (pool_len p ! l))]) ls))"
proof (induction ls arbitrary: layers)
  case Nil
  show ?case by simp
next
  case (Cons l ls)
  from Cons.prems have l: "l < length (nb_filter p)" "l < length (filter_len p)"
    "l < length (pool_len p)"
    and rest: "\<forall>l \<in> set ls. l < length (nb_filter p) \<and> l < length (filter_len p) \<and>
                 l < length (pool_len p)"
    by simp_all
  show ?case
    by (simp add: py_nth_def l Cons.IH [OF rest] del: string_of_nat.simps)
qed

lemma cpg_conv_loop_blocks:
  "\<forall>l \<in> set ls. l < length (nb_filter p) \<and> l < length (filter_len p) \<and> l < length (pool_len p) \<Longrightarrow>
   cpg_conv_loop p w ls layers =
     Inr (layers @
          concat (map (\<lambda>l. [(''c'' @ string_of_nat (l + 1),
                              Convolution2D (nb_filter p ! l) 1 (filter_len p ! l) (activation p)
                                ''glorot_uniform'' w ''same''),
                             (''p'' @ string_of_nat (l + 1), MaxPooling2D (1, pool_len p ! l))]) ls))"
proof (induction ls arbitrary: layers)
  case Nil
  show ?case by simp
next
  case (Cons l ls)
  from Cons.prems have l: "l < length (nb_filter p)" "l < length (filter_len p)"
    "l < length (pool_len p)"
    and rest: "\<forall>l \<in> set ls. l < length (nb_filter p) \<and> l < length (filter_len p) \<and>
                 l < length (pool_len p)"
    by simp_all
  show ?case
    by (simp add: py_nth_def l Cons.IH [OF rest] del: string_of_nat.simps)
qed

lemma seq_conv_loop_short:
  "l \<in> set ls \<Longrightarrow> \<not> (l < length (filter_len p) \<and> l < length (pool_len p)) \<Longrightarrow>
   seq_conv_loop p w ls layers = Inl IndexError"
proof (induction ls arbitrary: layers)
  case Nil
  then show ?case by simp
next
  case (Cons l' ls)
  show ?case
  proof (cases "l' < length (nb_filter p) \<and> l' < length (filter_len p) \<and> l' < length (pool_len p)")
    case True
    with Cons.prems have "l \<in> set ls" by auto
    from Cons.IH [OF this Cons.prems(2)] True show ?thesis
      by (simp add: py_nth_def del: string_of_nat.simps)
  next
    case False
    then show ?thesis
      by (auto simp: py_nth_def simp del: string_of_nat.simps)
  qed
qed

lemma cpg_conv_loop_short:
  "l \<in> set ls \<Longrightarrow> \<not> (l < length (filter_len p) \<and> l < length (pool_len p)) \<Longrightarrow>
   cpg_conv_loop p w ls layers = Inl IndexError"
proof (induction ls arbitrary: layers)
  case Nil
  then show ?case by simp
next
  case (Cons l' ls)
  show ?case
  proof (cases "l' < length (nb_filter p) \<and> l' < length (filter_len p) \<and> l' < length (pool_len p)")
    case True
    with Cons.prems have "l \<in> set ls" by auto
    from Cons.IH [OF this Cons.prems(2)] True show ?thesis
      by (simp add: py_nth_def del: string_of_nat.simps)
  next
    case False
    then show ?thesis
      by (auto simp: py_nth_def simp del: string_of_nat.simps)
  qed
qed

lemma seq_layers_closed:
  assumes "length (nb_filter p) \<le> length (filter_len p)"
    and "length (nb_filter p) \<le> length (pool_len p)"
  shows "seq_layers p =
     Inr ((if drop_in p \<noteq> 0 then [(''xd'', Dropout (drop_in p))] else []) @
          concat (map (\<lambda>l. [(''c'' @ string_of_nat (l + 1),
                              Convolution1D (nb_filter p ! l) (filter_len p ! l) (activation p)
                                ''glorot_uniform'' (WeightRegularizer (l1 p) (l2 p)) ''same''),
                             (''p'' @ string_of_nat (l + 1), MaxPooling1D (pool_len p ! l))])
                    [0..<length (nb_filter p)]) @
          [(''f1'', Flatten)] @
          (if drop_out p \<noteq> 0 then [(''f1d'', Dropout (drop_out p))] else []) @
          (if nb_hidden p \<noteq> 0
           then [(''h1'', Dense (nb_hidden p) ''linear'' ''glorot_uniform'')] @
                (if batch_norm p then [(''h1b'', BatchNormalization)] else []) @
                [(''h1a'', Activation (activation p))] @
                (if drop_out p \<noteq> 0 then [(''h1d'', Dropout (drop_out p))] else [])
           else []))"
proof -
  have "\<forall>l \<in> set [0..<length (nb_filter p)].
      l < length (nb_filter p) \<and> l < length (filter_len p) \<and> l < length (pool_len p)"
    using assms by auto
  note loop = seq_conv_loop_blocks [OF this]
  show ?thesis
    by (cases "drop_in p = 0"; cases "drop_out p = 0"; cases "nb_hidden p = 0";
        cases "batch_norm p")
      (simp_all add: seq_layers_def Let_def loop del: string_of_nat.simps)
qed

lemma cpg_layers_closed:
  assumes "length (nb_filter p) \<le> length (filter_len p)"
    and "length (nb_filter p) \<le> length (pool_len p)"
  shows "cpg_layers p =
     Inr ((if drop_in p \<noteq> 0 then [(''xd'', Dropout (drop_in p))] else []) @
          concat (map (\<lambda>l. [(''c'' @ string_of_nat (l + 1),
                              Convolution2D (nb_filter p ! l) 1 (filter_len p ! l) (activation p)
                                ''glorot_uniform'' (WeightRegularizer (l1 p) (l2 p)) ''same''),
                             (''p'' @ string_of_nat (l + 1), MaxPooling2D (1, pool_len p ! l))])
                    [0..<length (nb_filter p)]) @
          [(''f1'', Flatten)] @
          (if drop_out p \<noteq> 0 then [(''f1d'', Dropout (drop_out p))] else []) @
          (if nb_hidden p \<noteq> 0
           then [(''h1'', Dense (nb_hidden p) ''linear'' ''glorot_uniform'')] @
                (if batch_norm p then [(''h1b'', BatchNormalization)] else []) @
                [(''h1a'', Activation (activation p))] @
                (if drop_out p \<noteq> 0 then [(''h1d'', Dropout (drop_out p))] else [])
           else []))"
proof -
  have "\<forall>l \<in> set [0..<length (nb_filter p)].
      l < length (nb_filter p) \<and> l < length (filter_len p) \<and> l < length (pool_len p)"
    using assms by auto
  note loop = cpg_conv_loop_blocks [OF this]
  show ?thesis
    by (cases "drop_in p = 0"; cases "drop_out p = 0"; cases "nb_hidden p = 0";
        cases "batch_norm p")
      (simp_all add: cpg_layers_def Let_def loop del: string_of_nat.simps)
qed

lemma layers_short:
  assumes "\<not> (length (nb_filter p) \<le> length (filter_len p) \<and>
              length (nb_filter p) \<le> length (pool_len p))"
  shows "seq_layers p = Inl IndexError" and "cpg_layers p = Inl IndexError"
proof -
  define l where "l = min (length (filter_len p)) (length (pool_len p))"
  from assms have l: "l \<in> set [0..<length (nb_filter p)]"
    and s: "\<not> (l < length (filter_len p) \<and> l < length (pool_len p))"
    unfolding l_def by auto
  show "seq_layers p = Inl IndexError"
    by (simp add: seq_layers_def Let_def seq_conv_loop_short [OF l s])
  show "cpg_layers p = Inl IndexError"
    by (simp add: cpg_layers_def Let_def cpg_conv_loop_short [OF l s])
qed

text \<open>
  Claim C1, as stated, fails: \<open>seq_layers\<close> and \<open>cpg_layers\<close> read \<open>filter_len[l]\<close> and
  \<open>pool_len[l]\<close> for every index of \<open>nb_filter\<close>, so parameters with two filters and one
  filter length raise \<open>IndexError\<close> and return no layers.
\<close>

theorem seq_layers_counterexample:
  "seq_layers \<lparr>nb_hidden = 0, batch_norm = False, activation = ''relu'', drop_out = 0,
       drop_in = 0, nb_filter = [4, 4], filter_len = [3], pool_len = [2, 2], l1 = 0, l2 = 0\<rparr> =
     Inl IndexError \<and>
   cpg_layers \<lparr>nb_hidden = 0, batch_norm = False, activation = ''relu'', drop_out = 0,
       drop_in = 0, nb_filter = [4, 4], filter_len = [3], pool_len = [2, 2], l1 = 0, l2 = 0\<rparr> =
     Inl IndexError"
  by (simp add: layers_short)

text \<open>
  Claim C1, amended. When \<open>filter_len\<close> and \<open>pool_len\<close> have at least as many entries as
  \<open>nb_filter\<close>, \<open>seq_layers\<close> returns: the input dropout \<open>xd\<close> when \<open>drop_in\<close> is
  truthy; for each index \<open>l\<close> of \<open>nb_filter\<close>, in order, the 1-D convolution \<open>c{l+1}\<close> with
  the \<open>l\<close>-th filter number and length, immediately followed by the 1-D max-pooling
  \<open>p{l+1}\<close> with the \<open>l\<close>-th pool length; the Flatten layer \<open>f1\<close>, with its dropout
  \<open>f1d\<close> when \<open>drop_out\<close> is truthy; and the dense head (\<open>h1\<close>, batch normalisation
  \<open>h1b\<close> if asked for, the activation \<open>h1a\<close>, dropout \<open>h1d\<close>) if and only if
  \<open>nb_hidden\<close> is truthy. \<open>cpg_layers\<close> returns the same with 2-D convolutions
  (\<open>nb_row = 1\<close>, \<open>nb_col = filter_len[l]\<close>) and 2-D max-pooling of size
  \<open>(1, pool_len[l])\<close>. With fewer entries both raise \<open>IndexError\<close>.
\<close>

theorem branch_layers_amended:
  "(length (nb_filter p) \<le> length (filter_len p) \<and> length (nb_filter p) \<le> length (pool_len p) \<longrightarrow>
      seq_layers p =
        Inr ((if drop_in p \<noteq> 0 then [(''xd'', Dropout (drop_in p))] else []) @
             concat (map (\<lambda>l. [(''c'' @ string_of_nat (l + 1),
                                 Convolution1D (nb_filter p ! l) (filter_len p ! l) (activation p)
                                   ''glorot_uniform'' (WeightRegularizer (l1 p) (l2 p)) ''same''),
                                (''p'' @ string_of_nat (l + 1), MaxPooling1D (pool_len p ! l))])
                       [0..<length (nb_filter p)]) @
             [(''f1'', Flatten)] @
             (if drop_out p \<noteq> 0 then [(''f1d'', Dropout (drop_out p))] else []) @
             (if nb_hidden p \<noteq> 0
              then [(''h1'', Dense (nb_hidden p) ''linear'' ''glorot_uniform'')] @
                   (if batch_norm p then [(''h1b'', BatchNormalization)] else []) @
                   [(''h1a'', Activation (activation p))] @
                   (if drop_out p \<noteq> 0 then [(''h1d'', Dropout (drop_out p))] else [])
              else [])) \<and>
      cpg_layers p =
        Inr ((if drop_in p \<noteq> 0 then [(''xd'', Dropout (drop_in p))] else []) @
             concat (map (\<lambda>l. [(''c'' @ string_of_nat (l + 1),
                                 Convolution2D (nb_filter p ! l) 1 (filter_len p ! l) (activation p)
                                   ''glorot_uniform'' (WeightRegularizer (l1 p) (l2 p)) ''same''),
                                (''p'' @ string_of_nat (l + 1), MaxPooling2D (1, pool_len p ! l))])
                       [0..<length (nb_filter p)]) @
             [(''f1'', Flatten)] @
             (if drop_out p \<noteq> 0 then [(''f1d'', Dropout (drop_out p))] else []) @
             (if nb_hidden p \<noteq> 0
              then [(''h1'', Dense (nb_hidden p) ''linear'' ''glorot_uniform'')] @
                   (if batch_norm p then [(''h1b'', BatchNormalization)] else []) @
                   [(''h1a'', Activation (activation p))] @
                   (if drop_out p \<noteq> 0 then [(''h1d'', Dropout (drop_out p))] else [])
              else [])) \<and>
      (\<forall>ls. seq_layers p = Inr ls \<or> cpg_layers p = Inr ls \<longrightarrow>
            (''h1'' \<in> fst ` set ls \<longleftrightarrow> nb_hidden p \<noteq> 0) \<and>
            (''h1a'' \<in> fst ` set ls \<longleftrightarrow> nb_hidden p \<noteq> 0))) \<and>
   (\<not> (length (nb_filter p) \<le> length (filter_len p) \<and>
        length (nb_filter p) \<le> length (pool_len p)) \<longrightarrow>
      seq_layers p = Inl IndexError \<and> cpg_layers p = Inl IndexError)"
proof (intro conjI impI)
  assume ok: "length (nb_filter p) \<le> length (filter_len p) \<and>
              length (nb_filter p) \<le> length (pool_len p)"
  then have a: "length (nb_filter p) \<le> length (filter_len p)"
    and b: "length (nb_filter p) \<le> length (pool_len p)" by simp_all
  note s = seq_layers_closed [OF a b]
  note c = cpg_layers_closed [OF a b]
  show "seq_layers p =
        Inr ((if drop_in p \<noteq> 0 then [(''xd'', Dropout (drop_in p))] else []) @
             concat (map (\<lambda>l. [(''c'' @ string_of_nat (l + 1),
                                 Convolution1D (nb_filter p ! l) (filter_len p ! l) (activation p)
                                   ''glorot_uniform'' (WeightRegularizer (l1 p) (l2 p)) ''same''),
                                (''p'' @ string_of_nat (l + 1), MaxPooling1D (pool_len p ! l))])
                       [0..<length (nb_filter p)]) @
             [(''f1'', Flatten)] @
             (if drop_out p \<noteq> 0 then [(''f1d'', Dropout (drop_out p))] else []) @
             (if nb_hidden p \<noteq> 0
              then [(''h1'', Dense (nb_hidden p) ''linear'' ''glorot_uniform'')] @
                   (if batch_norm p then [(''h1b'', BatchNormalization)] else []) @
                   [(''h1a'', Activation (activation p))] @
                   (if drop_out p \<noteq> 0 then [(''h1d'', Dropout (drop_out p))] else [])
              else []))"
    by (rule s)
  show "cpg_layers p =
        Inr ((if drop_in p \<noteq> 0 then [(''xd'', Dropout (drop_in p))] else []) @
             concat (map (\<lambda>l. [(''c'' @ string_of_nat (l + 1),
                                 Convolution2D (nb_filter p ! l) 1 (filter_len p ! l) (activation p)
                                   ''glorot_uniform'' (WeightRegularizer (l1 p) (l2 p)) ''same''),
                                (''p'' @ string_of_nat (l + 1), MaxPooling2D (1, pool_len p ! l))])
                       [0..<length (nb_filter p)]) @
             [(''f1'', Flatten)] @
             (if drop_out p \<noteq> 0 then [(''f1d'', Dropout (drop_out p))] else []) @
             (if nb_hidden p \<noteq> 0
              then [(''h1'', Dense (nb_hidden p) ''linear'' ''glorot_uniform'')] @
                   (if batch_norm p then [(''h1b'', BatchNormalization)] else []) @
                   [(''h1a'', Activation (activation p))] @
                   (if drop_out p \<noteq> 0 then [(''h1d'', Dropout (drop_out p))] else [])
              else []))"
    by (rule c)
  show "\<forall>ls. seq_layers p = Inr ls \<or> cpg_layers p = Inr ls \<longrightarrow>
            (''h1'' \<in> fst ` set ls \<longleftrightarrow> nb_hidden p \<noteq> 0) \<and>
            (''h1a'' \<in> fst ` set ls \<longleftrightarrow> nb_hidden p \<noteq> 0)"
  proof (intro allI impI)
    fix ls
    assume "seq_layers p = Inr ls \<or> cpg_layers p = Inr ls"
    then have "\<exists>blk :: nat \<Rightarrow> (string \<times> layer) list.
        ls = (if drop_in p \<noteq> 0 then [(''xd'', Dropout (drop_in p))] else []) @
             concat (map blk [0..<length (nb_filter p)]) @
             [(''f1'', Flatten)] @
             (if drop_out p \<noteq> 0 then [(''f1d'', Dropout (drop_out p))] else []) @
             (if nb_hidden p \<noteq> 0
              then [(''h1'', Dense (nb_hidden p) ''linear'' ''glorot_uniform'')] @
                   (if batch_norm p then [(''h1b'', BatchNormalization)] else []) @
                   [(''h1a'', Activation (activation p))] @
                   (if drop_out p \<noteq> 0 then [(''h1d'', Dropout (drop_out p))] else [])
              else []) \<and>
        (\<forall>l. fst ` set (blk l) =
               {''c'' @ string_of_nat (l + 1), ''p'' @ string_of_nat (l + 1)})"
    proof (elim disjE)
      assume e: "seq_layers p = Inr ls"
      show ?thesis
        by (rule exI [where x = "\<lambda>l. [(''c'' @ string_of_nat (l + 1),
                                 Convolution1D (nb_filter p ! l) (filter_len p ! l) (activation p)
                                   ''glorot_uniform'' (WeightRegularizer (l1 p) (l2 p)) ''same''),
                                (''p'' @ string_of_nat (l + 1), MaxPooling1D (pool_len p ! l))]"])
          (use s e in \<open>simp del: string_of_nat.simps\<close>)
    next
      assume e: "cpg_layers p = Inr ls"
      show ?thesis
        by (rule exI [where x = "\<lambda>l. [(''c'' @ string_of_nat (l + 1),
                                 Convolution2D (nb_filter p ! l) 1 (filter_len p ! l) (activation p)
                                   ''glorot_uniform'' (WeightRegularizer (l1 p) (l2 p)) ''same''),
                                (''p'' @ string_of_nat (l + 1), MaxPooling2D (1, pool_len p ! l))]"])
          (use c e in \<open>simp del: string_of_nat.simps\<close>)
    qed
    then obtain blk :: "nat \<Rightarrow> (string \<times> layer) list" where
      ls: "ls = (if drop_in p \<noteq> 0 then [(''xd'', Dropout (drop_in p))] else []) @
             concat (map blk [0..<length (nb_filter p)]) @
             [(''f1'', Flatten)] @
             (if drop_out p \<noteq> 0 then [(''f1d'', Dropout (drop_out p))] else []) @
             (if nb_hidden p \<noteq> 0
              then [(''h1'', Dense (nb_hidden p) ''linear'' ''glorot_uniform'')] @
                   (if batch_norm p then [(''h1b'', BatchNormalization)] else []) @
                   [(''h1a'', Activation (activation p))] @
                   (if drop_out p \<noteq> 0 then [(''h1d'', Dropout (drop_out p))] else [])
              else [])"
      and blk: "\<And>l. fst ` set (blk l) = {''c'' @ string_of_nat (l + 1), ''p'' @ string_of_nat (l + 1)}"
      by blast
    show "(''h1'' \<in> fst ` set ls \<longleftrightarrow> nb_hidden p \<noteq> 0) \<and>
          (''h1a'' \<in> fst ` set ls \<longleftrightarrow> nb_hidden p \<noteq> 0)"
      unfolding ls
      by (cases "drop_in p = 0"; cases "drop_out p = 0"; cases "nb_hidden p = 0";
          cases "batch_norm p")
        (simp_all add: image_Un image_UN blk del: string_of_nat.simps)
  qed
next
  assume "\<not> (length (nb_filter p) \<le> length (filter_len p) \<and>
             length (nb_filter p) \<le> length (pool_len p))"
  then show "seq_layers p = Inl IndexError" by (rule layers_short)
next
  assume "\<not> (length (nb_filter p) \<le> length (filter_len p) \<and>
             length (nb_filter p) \<le> length (pool_len p))"
  then show "cpg_layers p = Inl IndexError" by (rule layers_short)
qed

theorem branch_layers_amended_witness:
  "seq_layers \<lparr>nb_hidden = 16, batch_norm = True, activation = ''relu'', drop_out = 1 / 4,
       drop_in = 1 / 5, nb_filter = [4, 8], filter_len = [3, 5], pool_len = [2, 4],
       l1 = 0, l2 = 1 / 100\<rparr> =
     Inr [(''xd'', Dropout (1 / 5)),
          (''c1'', Convolution1D 4 3 ''relu'' ''glorot_uniform'' (WeightRegularizer 0 (1 / 100)) ''same''),
          (''p1'', MaxPooling1D 2),
          (''c2'', Convolution1D 8 5 ''relu'' ''glorot_uniform'' (WeightRegularizer 0 (1 / 100)) ''same''),
          (''p2'', MaxPooling1D 4),
          (''f1'', Flatten),
          (''f1d'', Dropout (1 / 4)),
          (''h1'', Dense 16 ''linear'' ''glorot_uniform''),
          (''h1b'', BatchNormalization),
          (''h1a'', Activation ''relu''),
          (''h1d'', Dropout (1 / 4))] \<and>
   cpg_layers \<lparr>nb_hidden = 0, batch_norm = True, activation = ''relu'', drop_out = 0,
       drop_in = 0, nb_filter = [4], filter_len = [3, 5], pool_len = [2],
       l1 = 0, l2 = 0\<rparr> =
     Inr [(''c1'', Convolution2D 4 1 3 ''relu'' ''glorot_uniform'' (WeightRegularizer 0 0) ''same''),
          (''p1'', MaxPooling2D (1, 2)),
          (''f1'', Flatten)] \<and>
   seq_layers \<lparr>nb_hidden = 16, batch_norm = True, activation = ''relu'', drop_out = 0,
       drop_in = 0, nb_filter = [4, 8], filter_len = [3, 5], pool_len = [2],
       l1 = 0, l2 = 0\<rparr> = Inl IndexError"
proof -
  have u2: "[0..<length [4::int, 8]] = [0, 1]" and u1: "[0..<length [4::int]] = [0]"
    by (simp_all add: upt_rec)
  show ?thesis
    using branch_layers_amended [of "\<lparr>nb_hidden = 16, batch_norm = True, activation = ''relu'',
       drop_out = 1 / 4, drop_in = 1 / 5, nb_filter = [4, 8], filter_len = [3, 5],
       pool_len = [2, 4], l1 = 0, l2 = 1 / 100\<rparr>"]
      branch_layers_amended [of "\<lparr>nb_hidden = 0, batch_norm = True, activation = ''relu'',
       drop_out = 0, drop_in = 0, nb_filter = [4], filter_len = [3, 5], pool_len = [2],
       l1 = 0, l2 = 0\<rparr>"]
      branch_layers_amended [of "\<lparr>nb_hidden = 16, batch_norm = True, activation = ''relu'',
       drop_out = 0, drop_in = 0, nb_filter = [4, 8], filter_len = [3, 5], pool_len = [2],
       l1 = 0, l2 = 0\<rparr>"]
    by (simp add: u2 u1 digit_char_def)
qed

end
